theory Spec2Isabelle
  imports Complex_Main
begin

section \<open>Precision scaling: the search of \<open>scripts/precision_scaling.py\<close>\<close>

text \<open>
  The script computes with NumPy \<open>float64\<close> values. The function \<open>optimize_scaling\<close> is
  embedded twice.

  The first embedding computes on exact numbers: a float is a real number or one of the
  three special values that NumPy produces instead of raising when it divides by zero,
  \<open>+inf\<close>, \<open>-inf\<close> and \<open>nan\<close>; a finite operation returns the exact real result, the
  integers are unbounded and zero has no sign. It agrees with the script wherever \<open>float64\<close>
  arithmetic is exact, and serves for the properties that do not depend on rounding (which
  errors reach the caller, the tie-break of \<open>np.round\<close>, the consistency of what is returned)
  and for the evaluation of examples.

  The second embedding takes every operation of NumPy as a parameter; the properties of the
  search itself are proved there, for any arithmetic.

  The inputs of the search (the series, \<open>target_mean\<close>, \<open>target_cv_error\<close>, the range bounds
  and the step) are finite numbers.
\<close>

section \<open>The search on exact numbers\<close>

subsection \<open>NumPy floating-point values\<close>

datatype npfloat = Fin real | PInf | NInf | NaN

fun is_nan :: "npfloat \<Rightarrow> bool" where
  "is_nan NaN = True"
| "is_nan _ = False"

text \<open>Division: a zero divisor gives an infinity or \<open>nan\<close>, never an exception.\<close>

fun fdiv :: "npfloat \<Rightarrow> npfloat \<Rightarrow> npfloat" where
  "fdiv NaN _ = NaN"
| "fdiv _ NaN = NaN"
| "fdiv (Fin a) (Fin b) =
     (if b \<noteq> 0 then Fin (a / b)
      else if a = 0 then NaN
      else if 0 < a then PInf else NInf)"
| "fdiv (Fin a) PInf = Fin 0"
| "fdiv (Fin a) NInf = Fin 0"
| "fdiv PInf (Fin b) = (if b < 0 then NInf else PInf)"
| "fdiv NInf (Fin b) = (if b < 0 then PInf else NInf)"
| "fdiv PInf PInf = NaN"
| "fdiv PInf NInf = NaN"
| "fdiv NInf PInf = NaN"
| "fdiv NInf NInf = NaN"

fun fmul :: "npfloat \<Rightarrow> npfloat \<Rightarrow> npfloat" where
  "fmul NaN _ = NaN"
| "fmul _ NaN = NaN"
| "fmul (Fin a) (Fin b) = Fin (a * b)"
| "fmul (Fin a) PInf = (if a = 0 then NaN else if 0 < a then PInf else NInf)"
| "fmul (Fin a) NInf = (if a = 0 then NaN else if 0 < a then NInf else PInf)"
| "fmul PInf (Fin b) = (if b = 0 then NaN else if 0 < b then PInf else NInf)"
| "fmul NInf (Fin b) = (if b = 0 then NaN else if 0 < b then NInf else PInf)"
| "fmul PInf PInf = PInf"
| "fmul PInf NInf = NInf"
| "fmul NInf PInf = NInf"
| "fmul NInf NInf = PInf"

fun fsub :: "npfloat \<Rightarrow> npfloat \<Rightarrow> npfloat" where
  "fsub NaN _ = NaN"
| "fsub _ NaN = NaN"
| "fsub (Fin a) (Fin b) = Fin (a - b)"
| "fsub (Fin a) PInf = NInf"
| "fsub (Fin a) NInf = PInf"
| "fsub PInf (Fin b) = PInf"
| "fsub NInf (Fin b) = NInf"
| "fsub PInf PInf = NaN"
| "fsub PInf NInf = PInf"
| "fsub NInf PInf = NInf"
| "fsub NInf NInf = NaN"

fun fabs :: "npfloat \<Rightarrow> npfloat" where
  "fabs (Fin a) = Fin \<bar>a\<bar>"
| "fabs PInf = PInf"
| "fabs NInf = PInf"
| "fabs NaN = NaN"

text \<open>Comparisons: every comparison with \<open>nan\<close> is false.\<close>

fun fless :: "npfloat \<Rightarrow> npfloat \<Rightarrow> bool" where
  "fless NaN _ = False"
| "fless _ NaN = False"
| "fless (Fin a) (Fin b) = (a < b)"
| "fless (Fin a) PInf = True"
| "fless (Fin a) NInf = False"
| "fless PInf _ = False"
| "fless NInf NInf = False"
| "fless NInf _ = True"

fun fle :: "npfloat \<Rightarrow> npfloat \<Rightarrow> bool" where
  "fle NaN _ = False"
| "fle _ NaN = False"
| "fle (Fin a) (Fin b) = (a \<le> b)"
| "fle (Fin a) PInf = True"
| "fle (Fin a) NInf = False"
| "fle PInf PInf = True"
| "fle PInf _ = False"
| "fle NInf _ = True"

subsection \<open>\<open>np.mean\<close>, \<open>np.std\<close> and \<open>calculate_cv\<close>\<close>

text \<open>
  \<open>np.mean\<close> and \<open>np.std\<close> of an empty array are \<open>nan\<close> (with a warning, not an
  exception). \<open>np.std\<close> is the population standard deviation: the square root of the mean
  of the squared deviations from the mean.
\<close>

definition np_mean :: "real list \<Rightarrow> npfloat" where
  "np_mean xs = (if xs = [] then NaN else Fin (sum_list xs / real (length xs)))"

definition np_std :: "real list \<Rightarrow> npfloat" where
  "np_std xs =
     (if xs = [] then NaN
      else let mu = sum_list xs / real (length xs)
           in Fin (sqrt (sum_list (map (\<lambda>x. \<bar>x - mu\<bar>\<^sup>2) xs) / real (length xs))))"

definition calculate_cv :: "real list \<Rightarrow> npfloat" where
  "calculate_cv data = fdiv (np_std data) (np_mean data)"

subsection \<open>The quantizer: \<open>np.round(scaled_data).astype(int)\<close>\<close>

text \<open>
  \<open>np.round\<close> rounds to the nearest integer and sends a value halfway between two integers
  to the even one; infinities and \<open>nan\<close> are left as they are.
\<close>

definition round_half_even :: "real \<Rightarrow> int" where
  "round_half_even x =
     (let f = \<lfloor>x\<rfloor>; d = x - of_int f
      in if d < 1/2 then f
         else if 1/2 < d then f + 1
         else if even f then f else f + 1)"

fun np_round :: "npfloat \<Rightarrow> npfloat" where
  "np_round (Fin a) = Fin (of_int (round_half_even a))"
| "np_round x = x"

text \<open>
  \<open>astype(int)\<close> truncates a finite value towards zero. What the cast makes of an infinity
  or of \<open>nan\<close> depends on the platform; it is the parameter \<open>cnf\<close>.
\<close>

definition trunc_int :: "real \<Rightarrow> int" where
  "trunc_int a = (if 0 \<le> a then \<lfloor>a\<rfloor> else \<lceil>a\<rceil>)"

fun astype_int :: "(npfloat \<Rightarrow> int) \<Rightarrow> npfloat \<Rightarrow> int" where
  "astype_int cnf (Fin a) = trunc_int a"
| "astype_int cnf x = cnf x"

subsection \<open>\<open>np.arange\<close>\<close>

datatype error = ZeroDivisionError | TypeError

text \<open>
  \<open>np.arange(start, stop, step)\<close> computes its length as the ceiling of
  \<open>(stop - start) / step\<close>, a division of Python floats that raises for a zero step; a
  length that is not positive gives the empty array. Element \<open>i\<close> is \<open>start + i * step\<close>.
\<close>

definition arange :: "real \<Rightarrow> real \<Rightarrow> real \<Rightarrow> error + real list" where
  "arange start stop step =
     (if step = 0 then Inl ZeroDivisionError
      else let n = \<lceil>(stop - start) / step\<rceil>
           in if n \<le> 0 then Inr []
              else Inr (map (\<lambda>i. start + real i * step) [0..<nat n]))"

subsection \<open>\<open>optimize_scaling\<close>\<close>

text \<open>What one pass of the loop body computes for a multiplier (lines 59 to 65).\<close>

definition scale_factor :: "npfloat \<Rightarrow> real \<Rightarrow> npfloat" where
  "scale_factor base_scale scale_multiplier = fmul base_scale (Fin scale_multiplier)"

definition scaled_data :: "real list \<Rightarrow> npfloat \<Rightarrow> npfloat list" where
  "scaled_data original_data sf = map (\<lambda>x. fmul (Fin x) sf) original_data"

definition rounded_data :: "(npfloat \<Rightarrow> int) \<Rightarrow> real list \<Rightarrow> npfloat \<Rightarrow> int list" where
  "rounded_data cnf original_data sf =
     map (\<lambda>y. astype_int cnf (np_round y)) (scaled_data original_data sf)"

definition cv_error :: "npfloat \<Rightarrow> int list \<Rightarrow> npfloat" where
  "cv_error original_cv rounded =
     (let rounded_cv = calculate_cv (map real_of_int rounded)
      in fdiv (fabs (fsub rounded_cv original_cv)) original_cv)"

text \<open>
  The loop variables: \<open>best_error\<close>, \<open>best_scale\<close>, \<open>best_data\<close> (\<open>None\<close> until a candidate
  is accepted) and \<open>scales_tried\<close>.
\<close>

record search_state =
  best_error :: npfloat
  best_scale :: npfloat
  best_data :: "int list option"
  scales_tried :: nat

text \<open>
  The \<open>for\<close> loop over the multipliers. The boolean of the result tells whether the loop
  was left by \<open>break\<close> (line 80) rather than by exhausting the multipliers.
\<close>

fun scan ::
  "(npfloat \<Rightarrow> int) \<Rightarrow> real list \<Rightarrow> npfloat \<Rightarrow> npfloat \<Rightarrow> real \<Rightarrow> real list \<Rightarrow>
     search_state \<Rightarrow> search_state \<times> bool" where
  "scan cnf original_data original_cv base_scale target_cv_error [] st = (st, False)"
| "scan cnf original_data original_cv base_scale target_cv_error (scale_multiplier # rest) st =
     (let st1 = st\<lparr>scales_tried := scales_tried st + 1\<rparr>;
          sf = scale_factor base_scale scale_multiplier;
          rounded = rounded_data cnf original_data sf;
          err = cv_error original_cv rounded
      in if fless err (best_error st1) then
           let st2 = st1\<lparr>best_error := err, best_scale := sf, best_data := Some rounded\<rparr>
           in if fle err (Fin target_cv_error) then (st2, True)
              else scan cnf original_data original_cv base_scale target_cv_error rest st2
         else scan cnf original_data original_cv base_scale target_cv_error rest st1)"

text \<open>
  Lines 36 to 80: the statistics of the original series, the base scale, the initial loop
  variables and the scan. Printing is not modelled; the only error of this part is the one
  of \<open>np.arange\<close>.
\<close>

definition base_scale_of :: "real list \<Rightarrow> real \<Rightarrow> npfloat" where
  "base_scale_of original_data target_mean = fdiv (Fin target_mean) (np_mean original_data)"

definition initial_state :: "npfloat \<Rightarrow> search_state" where
  "initial_state base_scale =
     \<lparr>best_error = PInf, best_scale = base_scale, best_data = None, scales_tried = 0\<rparr>"

definition optimize_scaling_search ::
  "(npfloat \<Rightarrow> int) \<Rightarrow> real list \<Rightarrow> real \<Rightarrow> real \<Rightarrow> real \<Rightarrow> real \<Rightarrow> real \<Rightarrow>
     error + (search_state \<times> bool)" where
  "optimize_scaling_search cnf original_data target_mean target_cv_error min_scale max_scale step =
     (let original_cv = calculate_cv original_data;
          base_scale = base_scale_of original_data target_mean
      in case arange min_scale max_scale step of
           Inl e \<Rightarrow> Inl e
         | Inr ms \<Rightarrow>
             Inr (scan cnf original_data original_cv base_scale target_cv_error ms
                    (initial_state base_scale)))"

text \<open>
  The whole function. With \<open>verbose\<close> set, the summary printed after the loop evaluates
  \<open>np.mean(best_data)\<close> (line 86), which raises \<open>TypeError\<close> when \<open>best_data\<close> is still
  \<open>None\<close>. The value returned is the pair \<open>(best_scale, best_data)\<close>.
\<close>

definition optimize_scaling ::
  "(npfloat \<Rightarrow> int) \<Rightarrow> real list \<Rightarrow> real \<Rightarrow> real \<Rightarrow> real \<Rightarrow> real \<Rightarrow> real \<Rightarrow> bool \<Rightarrow>
     error + (npfloat \<times> int list option)" where
  "optimize_scaling cnf original_data target_mean target_cv_error min_scale max_scale step verbose =
     (case optimize_scaling_search cnf original_data target_mean target_cv_error
             min_scale max_scale step of
        Inl e \<Rightarrow> Inl e
      | Inr (st, stopped) \<Rightarrow>
          if verbose \<and> best_data st = None then Inl TypeError
          else Inr (best_scale st, best_data st))"

subsection \<open>Notions used to state the properties\<close>

text \<open>
  The \<open>cv_error\<close> of the candidate that the loop body computes for a multiplier, and the
  loop variables right after that candidate has been accepted as the \<open>n\<close>-th one tried.
\<close>

definition candidate_error ::
  "(npfloat \<Rightarrow> int) \<Rightarrow> real list \<Rightarrow> npfloat \<Rightarrow> npfloat \<Rightarrow> real \<Rightarrow> npfloat" where
  "candidate_error cnf original_data original_cv base_scale m =
     cv_error original_cv (rounded_data cnf original_data (scale_factor base_scale m))"

definition accepted ::
  "(npfloat \<Rightarrow> int) \<Rightarrow> real list \<Rightarrow> npfloat \<Rightarrow> npfloat \<Rightarrow> real \<Rightarrow> nat \<Rightarrow> search_state" where
  "accepted cnf original_data original_cv base_scale m n =
     \<lparr>best_error = candidate_error cnf original_data original_cv base_scale m,
      best_scale = scale_factor base_scale m,
      best_data = Some (rounded_data cnf original_data (scale_factor base_scale m)),
      scales_tried = n\<rparr>"

text \<open>
  On x86-64, NumPy's cast of an infinity or of \<open>nan\<close> to \<open>int64\<close> gives the least
  \<open>int64\<close>. The closed examples below are evaluated with this cast.
\<close>

definition cast_x86_64 :: "npfloat \<Rightarrow> int" where
  "cast_x86_64 x = - (2 ^ 63)"

section \<open>The search over NumPy's operations as parameters\<close>

text \<open>
  The second embedding of the same function fixes nothing about NumPy's arithmetic. The
  library operations that the function calls are the fields of a record: what a property
  proved for every such record says holds for \<open>float64\<close> with its rounding, its overflow
  and its signed zero. \<open>'f\<close> is the type of the \<open>float64\<close> values, \<open>'a\<close> the type of the
  elements of the input array, \<open>'e\<close> the type of what \<open>np.arange\<close> may raise. Comparisons
  of floats are exact and depend only on the value a float denotes (\<open>lib_value\<close>: a real
  number, an infinity or \<open>nan\<close>; both zeros denote 0), so they are not parameters.

  \<^item> \<open>lib_mean\<close>, \<open>lib_std\<close>: \<open>np.mean\<close> and \<open>np.std\<close> of the input array;
    \<open>lib_mean_int\<close>, \<open>lib_std_int\<close>: the same of an integer array;
  \<^item> \<open>lib_rdiv\<close>: a Python float divided by a \<open>float64\<close> (line 40); \<open>lib_div\<close>, \<open>lib_mul\<close>,
    \<open>lib_sub\<close>, \<open>lib_abs\<close>: \<open>/\<close>, \<open>*\<close>, \<open>-\<close> and \<open>abs\<close> of \<open>float64\<close> values;
  \<^item> \<open>lib_mul_elem\<close>: one element of \<open>original_data * scale_factor\<close>;
  \<^item> \<open>lib_quantize\<close>: one element of \<open>np.round(...).astype(int)\<close>;
  \<^item> \<open>lib_arange\<close>: \<open>np.arange\<close>, which returns the multipliers or raises.
\<close>

record ('a, 'f, 'e) numpy =
  lib_value :: "'f \<Rightarrow> npfloat"
  lib_mean :: "'a list \<Rightarrow> 'f"
  lib_std :: "'a list \<Rightarrow> 'f"
  lib_mean_int :: "int list \<Rightarrow> 'f"
  lib_std_int :: "int list \<Rightarrow> 'f"
  lib_rdiv :: "real \<Rightarrow> 'f \<Rightarrow> 'f"
  lib_div :: "'f \<Rightarrow> 'f \<Rightarrow> 'f"
  lib_mul :: "'f \<Rightarrow> 'f \<Rightarrow> 'f"
  lib_mul_elem :: "'a \<Rightarrow> 'f \<Rightarrow> 'f"
  lib_sub :: "'f \<Rightarrow> 'f \<Rightarrow> 'f"
  lib_abs :: "'f \<Rightarrow> 'f"
  lib_quantize :: "'f \<Rightarrow> int"
  lib_arange :: "real \<Rightarrow> real \<Rightarrow> real \<Rightarrow> 'e + 'f list"

text \<open>
  What a call raises: an exception of \<open>np.arange\<close>, or the \<open>TypeError\<close> of the summary
  printed after the loop (line 86).
\<close>

datatype 'e raised = ArangeRaised 'e | SummaryTypeError

text \<open>\<open>calculate_cv\<close> (lines 15 to 17), on the input array and on an integer array.\<close>

definition calculate_cv_with :: "('a, 'f, 'e) numpy \<Rightarrow> 'a list \<Rightarrow> 'f" where
  "calculate_cv_with np data = lib_div np (lib_std np data) (lib_mean np data)"

definition calculate_cv_int_with :: "('a, 'f, 'e) numpy \<Rightarrow> int list \<Rightarrow> 'f" where
  "calculate_cv_int_with np data = lib_div np (lib_std_int np data) (lib_mean_int np data)"

text \<open>Line 40, and the loop body of lines 59 to 65.\<close>

definition base_scale_with :: "('a, 'f, 'e) numpy \<Rightarrow> 'a list \<Rightarrow> real \<Rightarrow> 'f" where
  "base_scale_with np original_data target_mean =
     lib_rdiv np target_mean (lib_mean np original_data)"

definition scale_factor_with :: "('a, 'f, 'e) numpy \<Rightarrow> 'f \<Rightarrow> 'f \<Rightarrow> 'f" where
  "scale_factor_with np base_scale scale_multiplier = lib_mul np base_scale scale_multiplier"

definition scaled_data_with :: "('a, 'f, 'e) numpy \<Rightarrow> 'a list \<Rightarrow> 'f \<Rightarrow> 'f list" where
  "scaled_data_with np original_data sf = map (\<lambda>x. lib_mul_elem np x sf) original_data"

definition rounded_data_with :: "('a, 'f, 'e) numpy \<Rightarrow> 'a list \<Rightarrow> 'f \<Rightarrow> int list" where
  "rounded_data_with np original_data sf =
     map (lib_quantize np) (scaled_data_with np original_data sf)"

definition cv_error_with :: "('a, 'f, 'e) numpy \<Rightarrow> 'f \<Rightarrow> int list \<Rightarrow> 'f" where
  "cv_error_with np original_cv rounded =
     (let rounded_cv = calculate_cv_int_with np rounded
      in lib_div np (lib_abs np (lib_sub np rounded_cv original_cv)) original_cv)"

text \<open>
  The loop of lines 55 to 80. The loop variables hold the values of the floats:
  \<open>best_error\<close> is only compared and \<open>best_scale\<close> is only returned.
\<close>

fun scan_with ::
  "('a, 'f, 'e) numpy \<Rightarrow> 'a list \<Rightarrow> 'f \<Rightarrow> 'f \<Rightarrow> real \<Rightarrow> 'f list \<Rightarrow>
     search_state \<Rightarrow> search_state \<times> bool" where
  "scan_with np original_data original_cv base_scale target_cv_error [] st = (st, False)"
| "scan_with np original_data original_cv base_scale target_cv_error (scale_multiplier # rest) st =
     (let st1 = st\<lparr>scales_tried := scales_tried st + 1\<rparr>;
          sf = scale_factor_with np base_scale scale_multiplier;
          rounded = rounded_data_with np original_data sf;
          err = cv_error_with np original_cv rounded
      in if fless (lib_value np err) (best_error st1) then
           let st2 = st1\<lparr>best_error := lib_value np err, best_scale := lib_value np sf,
                        best_data := Some rounded\<rparr>
           in if fle (lib_value np err) (Fin target_cv_error) then (st2, True)
              else scan_with np original_data original_cv base_scale target_cv_error rest st2
         else scan_with np original_data original_cv base_scale target_cv_error rest st1)"

text \<open>Lines 36 to 80, and the whole function with the summary of lines 82 to 89.\<close>

definition optimize_scaling_search_with ::
  "('a, 'f, 'e) numpy \<Rightarrow> 'a list \<Rightarrow> real \<Rightarrow> real \<Rightarrow> real \<Rightarrow> real \<Rightarrow> real \<Rightarrow>
     'e raised + (search_state \<times> bool)" where
  "optimize_scaling_search_with np original_data target_mean target_cv_error
       min_scale max_scale step =
     (let original_cv = calculate_cv_with np original_data;
          base_scale = base_scale_with np original_data target_mean
      in case lib_arange np min_scale max_scale step of
           Inl e \<Rightarrow> Inl (ArangeRaised e)
         | Inr ms \<Rightarrow>
             Inr (scan_with np original_data original_cv base_scale target_cv_error ms
                    (initial_state (lib_value np base_scale))))"

definition optimize_scaling_with ::
  "('a, 'f, 'e) numpy \<Rightarrow> 'a list \<Rightarrow> real \<Rightarrow> real \<Rightarrow> real \<Rightarrow> real \<Rightarrow> real \<Rightarrow> bool \<Rightarrow>
     'e raised + (npfloat \<times> int list option)" where
  "optimize_scaling_with np original_data target_mean target_cv_error
       min_scale max_scale step verbose =
     (case optimize_scaling_search_with np original_data target_mean target_cv_error
             min_scale max_scale step of
        Inl e \<Rightarrow> Inl e
      | Inr (st, stopped) \<Rightarrow>
          if verbose \<and> best_data st = None then Inl SummaryTypeError
          else Inr (best_scale st, best_data st))"

subsection \<open>The executions of the function as a relation\<close>

text \<open>
  The same loop as a relation between the multipliers left, the loop variables and the
  outcome, with one rule for each way through the loop body: the loop ends when no
  multiplier is left; a candidate that is not better is skipped; a better candidate is
  recorded and the loop goes on; a better candidate within the tolerance is recorded and
  the loop is left by \<open>break\<close>.
\<close>

inductive scan_run ::
  "('a, 'f, 'e) numpy \<Rightarrow> 'a list \<Rightarrow> 'f \<Rightarrow> 'f \<Rightarrow> real \<Rightarrow> 'f list \<Rightarrow>
     search_state \<Rightarrow> search_state \<times> bool \<Rightarrow> bool"
  for np :: "('a, 'f, 'e) numpy" and original_data :: "'a list" and original_cv :: 'f
    and base_scale :: 'f and target_cv_error :: real where
  exhausted:
    "scan_run np original_data original_cv base_scale target_cv_error [] st (st, False)"
| not_better:
    "\<not> fless (lib_value np (cv_error_with np original_cv
               (rounded_data_with np original_data
                  (scale_factor_with np base_scale scale_multiplier))))
            (best_error st) \<Longrightarrow>
     scan_run np original_data original_cv base_scale target_cv_error rest
       (st\<lparr>scales_tried := scales_tried st + 1\<rparr>) r \<Longrightarrow>
     scan_run np original_data original_cv base_scale target_cv_error
       (scale_multiplier # rest) st r"
| better:
    "fless (lib_value np (cv_error_with np original_cv
             (rounded_data_with np original_data
                (scale_factor_with np base_scale scale_multiplier))))
          (best_error st) \<Longrightarrow>
     \<not> fle (lib_value np (cv_error_with np original_cv
               (rounded_data_with np original_data
                  (scale_factor_with np base_scale scale_multiplier))))
          (Fin target_cv_error) \<Longrightarrow>
     scan_run np original_data original_cv base_scale target_cv_error rest
       (st\<lparr>scales_tried := scales_tried st + 1,
           best_error := lib_value np (cv_error_with np original_cv
               (rounded_data_with np original_data
                  (scale_factor_with np base_scale scale_multiplier))),
           best_scale := lib_value np (scale_factor_with np base_scale scale_multiplier),
           best_data := Some (rounded_data_with np original_data
                  (scale_factor_with np base_scale scale_multiplier))\<rparr>) r \<Longrightarrow>
     scan_run np original_data original_cv base_scale target_cv_error
       (scale_multiplier # rest) st r"
| within_target:
    "fless (lib_value np (cv_error_with np original_cv
             (rounded_data_with np original_data
                (scale_factor_with np base_scale scale_multiplier))))
          (best_error st) \<Longrightarrow>
     fle (lib_value np (cv_error_with np original_cv
             (rounded_data_with np original_data
                (scale_factor_with np base_scale scale_multiplier))))
          (Fin target_cv_error) \<Longrightarrow>
     scan_run np original_data original_cv base_scale target_cv_error
       (scale_multiplier # rest) st
       (st\<lparr>scales_tried := scales_tried st + 1,
           best_error := lib_value np (cv_error_with np original_cv
               (rounded_data_with np original_data
                  (scale_factor_with np base_scale scale_multiplier))),
           best_scale := lib_value np (scale_factor_with np base_scale scale_multiplier),
           best_data := Some (rounded_data_with np original_data
                  (scale_factor_with np base_scale scale_multiplier))\<rparr>, True)"


subsection \<open>Notions used to state the properties\<close>

text \<open>
  The value of the \<open>cv_error\<close> of the candidate of a multiplier, and the loop variables right
  after that candidate has been recorded as the \<open>n\<close>-th one tried.
\<close>

definition candidate_error_with ::
  "('a, 'f, 'e) numpy \<Rightarrow> 'a list \<Rightarrow> 'f \<Rightarrow> 'f \<Rightarrow> 'f \<Rightarrow> npfloat" where
  "candidate_error_with np original_data original_cv base_scale m =
     lib_value np (cv_error_with np original_cv
       (rounded_data_with np original_data (scale_factor_with np base_scale m)))"

definition accepted_with ::
  "('a, 'f, 'e) numpy \<Rightarrow> 'a list \<Rightarrow> 'f \<Rightarrow> 'f \<Rightarrow> 'f \<Rightarrow> nat \<Rightarrow> search_state" where
  "accepted_with np original_data original_cv base_scale m n =
     \<lparr>best_error = candidate_error_with np original_data original_cv base_scale m,
      best_scale = lib_value np (scale_factor_with np base_scale m),
      best_data = Some (rounded_data_with np original_data (scale_factor_with np base_scale m)),
      scales_tried = n\<rparr>"

text \<open>
  The loop invariant: no multiplier tried so far has an error strictly below \<open>best_error\<close>;
  \<open>best_error\<close> is not \<open>nan\<close>; and either nothing has been recorded, or the recorded
  candidate is one of those tried, its error is below \<open>+inf\<close>, and every earlier one has a
  strictly greater error or \<open>nan\<close>.
\<close>

definition tracks_with ::
  "('a, 'f, 'e) numpy \<Rightarrow> 'a list \<Rightarrow> 'f \<Rightarrow> 'f \<Rightarrow> 'f list \<Rightarrow> search_state \<Rightarrow> bool" where
  "tracks_with np d ocv bs ex st \<longleftrightarrow>
     (\<forall>m\<in>set ex. \<not> fless (candidate_error_with np d ocv bs m) (best_error st)) \<and>
     \<not> is_nan (best_error st) \<and>
     (case best_data st of
        None \<Rightarrow> best_error st = PInf \<and> best_scale st = lib_value np bs
      | Some x \<Rightarrow>
          (\<exists>i<length ex.
             st = accepted_with np d ocv bs (ex ! i) (scales_tried st) \<and>
             fless (candidate_error_with np d ocv bs (ex ! i)) PInf \<and>
             (\<forall>j<i. \<not> fle (candidate_error_with np d ocv bs (ex ! j))
                          (candidate_error_with np d ocv bs (ex ! i)))))"

section \<open>NumPy's operations\<close>

subsection \<open>The cast to \<open>int64\<close>\<close>

text \<open>
  \<open>astype(int)\<close> is a cast to \<open>int64\<close>: a finite value is truncated towards zero when the
  result is an \<open>int64\<close>; what the cast makes of any other value depends on the platform
  (\<open>cnf\<close>).
\<close>

definition astype_int64 :: "(npfloat \<Rightarrow> int) \<Rightarrow> npfloat \<Rightarrow> int" where
  "astype_int64 cnf x =
     (case x of
        Fin a \<Rightarrow>
          (let z = trunc_int a in if - (2 ^ 63) \<le> z \<and> z < 2 ^ 63 then z else cnf x)
      | _ \<Rightarrow> cnf x)"

subsection \<open>Rounding to \<open>float64\<close>\<close>

text \<open>
  IEEE 754 binary64, rounding to nearest with ties to even: a real number is rounded to
  the nearest multiple of the unit in the last place of its binade (53 significant bits,
  least exponent -1022, so that small numbers are rounded to multiples of \<open>2^-1074\<close>); a
  result of magnitude \<open>2^1024\<close> or more is an infinity. The product of two finite
  \<open>float64\<close> values is the rounded exact product.
\<close>

definition binary64_exponent :: "real \<Rightarrow> int" where
  "binary64_exponent x = max \<lfloor>log 2 \<bar>x\<bar>\<rfloor> (- 1022)"

definition binary64_nearest :: "real \<Rightarrow> real" where
  "binary64_nearest x =
     (let ulp = 2 powr (real_of_int (binary64_exponent x) - 52)
      in real_of_int (round_half_even (x / ulp)) * ulp)"

definition binary64 :: "real \<Rightarrow> npfloat" where
  "binary64 x =
     (if x = 0 then Fin 0
      else let r = binary64_nearest x
           in if 2 ^ 1024 \<le> \<bar>r\<bar> then (if 0 < x then PInf else NInf) else Fin r)"

fun fmul64 :: "npfloat \<Rightarrow> npfloat \<Rightarrow> npfloat" where
  "fmul64 (Fin a) (Fin b) = binary64 (a * b)"
| "fmul64 x y = fmul x y"

text \<open>The negation of a value.\<close>

fun fneg :: "npfloat \<Rightarrow> npfloat" where
  "fneg (Fin a) = Fin (- a)"
| "fneg PInf = NInf"
| "fneg NInf = PInf"
| "fneg NaN = NaN"

subsection \<open>Three instances\<close>

text \<open>
  The operations on exact numbers of the first embedding; the same with the cast to
  \<open>int64\<close>; the same with the \<open>float64\<close> product. They serve to evaluate the function on
  inputs on which \<open>float64\<close> arithmetic is exact.
\<close>

definition exact_numpy :: "(npfloat \<Rightarrow> int) \<Rightarrow> (real, npfloat, error) numpy" where
  "exact_numpy cnf =
     \<lparr>lib_value = (\<lambda>x. x),
      lib_mean = np_mean,
      lib_std = np_std,
      lib_mean_int = (\<lambda>zs. np_mean (map real_of_int zs)),
      lib_std_int = (\<lambda>zs. np_std (map real_of_int zs)),
      lib_rdiv = (\<lambda>a y. fdiv (Fin a) y),
      lib_div = fdiv,
      lib_mul = fmul,
      lib_mul_elem = (\<lambda>a y. fmul (Fin a) y),
      lib_sub = fsub,
      lib_abs = fabs,
      lib_quantize = (\<lambda>y. astype_int cnf (np_round y)),
      lib_arange = (\<lambda>start stop step. map_sum (\<lambda>e. e) (map Fin) (arange start stop step))\<rparr>"

definition int64_numpy :: "(npfloat \<Rightarrow> int) \<Rightarrow> (real, npfloat, error) numpy" where
  "int64_numpy cnf = (exact_numpy cnf)\<lparr>lib_quantize := \<lambda>y. astype_int64 cnf (np_round y)\<rparr>"

definition binary64_numpy :: "(npfloat \<Rightarrow> int) \<Rightarrow> (real, npfloat, error) numpy" where
  "binary64_numpy cnf = (exact_numpy cnf)\<lparr>lib_mul := fmul64\<rparr>"

section \<open>Properties of the search on exact numbers\<close>

subsection \<open>The order on NumPy values\<close>

lemma fless_not_nan: "fless a b \<Longrightarrow> \<not> is_nan a \<and> \<not> is_nan b"
  by (cases a; cases b) auto

lemma fless_irrefl: "\<not> fless a a"
  by (cases a) auto

lemma fless_trans: "fless a b \<Longrightarrow> fless b c \<Longrightarrow> fless a c"
  by (cases a; cases b; cases c) auto

lemma fle_fless_trans: "fle a b \<Longrightarrow> fless b c \<Longrightarrow> fless a c"
  by (cases a; cases b; cases c) auto

lemma not_fle_fless: "\<not> fle a b \<Longrightarrow> \<not> is_nan a \<Longrightarrow> \<not> is_nan b \<Longrightarrow> fless b a"
  by (cases a; cases b) auto

lemma not_fless_fle: "\<not> fless a b \<Longrightarrow> \<not> is_nan a \<Longrightarrow> \<not> is_nan b \<Longrightarrow> fle b a"
  by (cases a; cases b) auto

lemma not_fless_PInf: "\<not> fless a PInf \<Longrightarrow> a = PInf \<or> a = NaN"
  by (cases a) auto

subsection \<open>The loop\<close>

lemma state_overwritten:
  fixes st :: search_state
  shows "st\<lparr>scales_tried := n, best_error := e, best_scale := s, best_data := x\<rparr> =
    \<lparr>best_error = e, best_scale = s, best_data = x, scales_tried = n\<rparr>"
  by (cases st) simp

lemma scan_Cons:
  "scan cnf d ocv bs t (m # rest) st =
     (if fless (candidate_error cnf d ocv bs m) (best_error st) then
        if fle (candidate_error cnf d ocv bs m) (Fin t)
        then (accepted cnf d ocv bs m (scales_tried st + 1), True)
        else scan cnf d ocv bs t rest (accepted cnf d ocv bs m (scales_tried st + 1))
      else scan cnf d ocv bs t rest (st\<lparr>scales_tried := scales_tried st + 1\<rparr>))"
  by (simp add: Let_def candidate_error_def accepted_def state_overwritten)

lemma accepted_sel [simp]:
  "best_error (accepted cnf d ocv bs m n) = candidate_error cnf d ocv bs m"
  "best_scale (accepted cnf d ocv bs m n) = scale_factor bs m"
  "best_data (accepted cnf d ocv bs m n) = Some (rounded_data cnf d (scale_factor bs m))"
  "scales_tried (accepted cnf d ocv bs m n) = n"
  by (simp_all add: accepted_def)


subsection \<open>The empty progression\<close>

lemma arange_empty:
  "0 < step \<Longrightarrow> hi \<le> lo \<Longrightarrow> arange lo hi step = Inr []"
proof -
  assume "0 < step" "hi \<le> lo"
  then have "(hi - lo) / step \<le> 0" by (simp add: divide_nonpos_pos)
  then have "\<lceil>(hi - lo) / step\<rceil> \<le> 0" by linarith
  with \<open>0 < step\<close> show ?thesis by (simp add: arange_def Let_def)
qed

subsection \<open>Evaluation of the closed examples\<close>

lemma sqrt_9: "sqrt 9 = 3"
  by (rule real_sqrt_unique) simp_all

lemma sqrt_36: "sqrt 36 = 6"
  by (rule real_sqrt_unique) simp_all

lemma sqrt_quarter: "sqrt (1 / 4) = 1 / 2"
  by (rule real_sqrt_unique) (simp_all add: power2_eq_square)

lemmas eval_defs =
  calculate_cv_def np_std_def np_mean_def base_scale_of_def scale_factor_def scaled_data_def
  rounded_data_def round_half_even_def trunc_int_def cv_error_def candidate_error_def
  accepted_def Let_def

subsection \<open>Searches that accept no candidate\<close>

lemma search_Inr:
  "arange min_scale max_scale step = Inr ms \<Longrightarrow>
   optimize_scaling_search cnf d tm te min_scale max_scale step =
     Inr (scan cnf d (calculate_cv d) (base_scale_of d tm) te ms (initial_state (base_scale_of d tm)))"
  by (simp add: optimize_scaling_search_def Let_def)

lemma search_Inl:
  "arange min_scale max_scale step = Inl e \<Longrightarrow>
   optimize_scaling_search cnf d tm te min_scale max_scale step = Inl e"
  by (simp add: optimize_scaling_search_def Let_def)

lemma scan_none_accepted:
  "\<forall>m\<in>set ms. \<not> fless (candidate_error cnf d ocv bs m) (best_error st) \<Longrightarrow>
   scan cnf d ocv bs t ms st = (st\<lparr>scales_tried := scales_tried st + length ms\<rparr>, False)"
proof (induction ms arbitrary: st)
  case Nil
  then show ?case by simp
next
  case (Cons m rest)
  from Cons.prems have "\<forall>m\<in>set rest. \<not> fless (candidate_error cnf d ocv bs m)
      (best_error (st\<lparr>scales_tried := scales_tried st + 1\<rparr>))" by simp
  from Cons.IH [OF this] Cons.prems show ?case
    by (simp only: scan_Cons) simp
qed

lemma cv_error_undefined:
  assumes "ocv = Fin 0 \<or> ocv = PInf \<or> ocv = NaN"
  shows "\<not> fless (cv_error ocv r) PInf"
proof -
  have "\<not> fless (fdiv (fabs (fsub x ocv)) ocv) PInf" for x
    using assms by (cases x) (auto split: if_splits)
  then show ?thesis by (simp add: cv_error_def Let_def)
qed

subsection \<open>The quantizer\<close>

lemma trunc_int_of_int: "trunc_int (of_int z) = z"
  by (simp add: trunc_int_def)

lemma round_half_even_nearest: "\<bar>real_of_int (round_half_even x) - x\<bar> \<le> \<bar>real_of_int k - x\<bar>"
proof (cases "k \<le> \<lfloor>x\<rfloor>")
  case True
  then have "real_of_int k \<le> real_of_int \<lfloor>x\<rfloor>" by simp
  then have "x - real_of_int \<lfloor>x\<rfloor> \<le> \<bar>real_of_int k - x\<bar>" by linarith
  moreover have "\<bar>real_of_int (round_half_even x) - x\<bar> \<le> x - real_of_int \<lfloor>x\<rfloor>"
    unfolding round_half_even_def Let_def by (auto split: if_splits)
  ultimately show ?thesis by linarith
next
  case False
  then have "\<lfloor>x\<rfloor> + 1 \<le> k" by simp
  then have "real_of_int \<lfloor>x\<rfloor> + 1 \<le> real_of_int k" by linarith
  then have "real_of_int \<lfloor>x\<rfloor> + 1 - x \<le> \<bar>real_of_int k - x\<bar>" by linarith
  moreover have "\<bar>real_of_int (round_half_even x) - x\<bar> \<le> real_of_int \<lfloor>x\<rfloor> + 1 - x"
    unfolding round_half_even_def Let_def by (auto split: if_splits)
  ultimately show ?thesis by linarith
qed

lemma round_half_even_tie:
  assumes "frac x = 1 / 2"
  shows "even (round_half_even x)" and "\<bar>real_of_int (round_half_even x) - x\<bar> = 1 / 2"
proof -
  from assms have d: "x - real_of_int \<lfloor>x\<rfloor> = 1 / 2" by (simp add: frac_def)
  then show "even (round_half_even x)"
    by (simp add: round_half_even_def Let_def)
  from d show "\<bar>real_of_int (round_half_even x) - x\<bar> = 1 / 2"
    by (simp add: round_half_even_def Let_def)
qed

lemma rounded_data_finite_nth:
  "i < length d \<Longrightarrow> rounded_data cnf d (Fin s) ! i = round_half_even (d ! i * s)"
  by (simp add: rounded_data_def scaled_data_def trunc_int_of_int)

lemma rounded_data_length: "length (rounded_data cnf d sf) = length d"
  by (simp add: rounded_data_def scaled_data_def)

subsection \<open>A run on the series \<open>[1, 3]\<close>\<close>



section \<open>Properties of the search over any arithmetic\<close>

subsection \<open>The loop\<close>

lemma fless_below_PInf: "fless a b \<Longrightarrow> fless a PInf"
  by (cases a; cases b) auto

lemma scan_Cons_with:
  "scan_with np d ocv bs t (m # rest) st =
     (if fless (candidate_error_with np d ocv bs m) (best_error st) then
        if fle (candidate_error_with np d ocv bs m) (Fin t)
        then (accepted_with np d ocv bs m (scales_tried st + 1), True)
        else scan_with np d ocv bs t rest (accepted_with np d ocv bs m (scales_tried st + 1))
      else scan_with np d ocv bs t rest (st\<lparr>scales_tried := scales_tried st + 1\<rparr>))"
  by (simp add: Let_def candidate_error_with_def accepted_with_def state_overwritten)

lemma scan_first_meeting_with:
  assumes "i < length ms"
    and "fle (candidate_error_with np d ocv bs (ms ! i)) (Fin t)"
    and "\<forall>j<i. \<not> fle (candidate_error_with np d ocv bs (ms ! j)) (Fin t)"
    and "fless (Fin t) (best_error st)"
  shows "scan_with np d ocv bs t ms st = (accepted_with np d ocv bs (ms ! i) (scales_tried st + i + 1), True)"
  using assms
proof (induction ms arbitrary: i st)
  case Nil
  then show ?case by simp
next
  case (Cons m rest)
  let ?E = "candidate_error_with np d ocv bs"
  show ?case
  proof (cases i)
    case 0
    with Cons.prems have "fle (?E m) (Fin t)" by simp
    moreover from this Cons.prems(4) have "fless (?E m) (best_error st)"
      by (rule fle_fless_trans)
    ultimately show ?thesis using 0 by (simp only: scan_Cons_with) simp
  next
    case (Suc k)
    from Cons.prems(3) Suc have nm: "\<not> fle (?E m) (Fin t)" by auto
    from Cons.prems(1) Suc have k: "k < length rest" by simp
    from Cons.prems(2) Suc have mk: "fle (?E (rest ! k)) (Fin t)" by simp
    from Cons.prems(3) Suc have bk: "\<forall>j<k. \<not> fle (?E (rest ! j)) (Fin t)" by auto
    show ?thesis
    proof (cases "fless (?E m) (best_error st)")
      case True
      then have "\<not> is_nan (?E m)" by (simp add: fless_not_nan)
      with nm have "fless (Fin t) (?E m)" by (simp add: not_fle_fless)
      then have "fless (Fin t) (best_error (accepted_with np d ocv bs m (scales_tried st + 1)))"
        by (simp add: accepted_with_def)
      from Cons.IH [OF k mk bk this] True nm Suc show ?thesis
        by (simp only: scan_Cons_with) (simp add: accepted_with_def)
    next
      case False
      from Cons.prems(4) have "fless (Fin t) (best_error (st\<lparr>scales_tried := scales_tried st + 1\<rparr>))"
        by simp
      from Cons.IH [OF k mk bk this] False Suc show ?thesis
        by (simp only: scan_Cons_with) simp
    qed
  qed
qed

lemma scan_break_meets_with:
  "scan_with np d ocv bs t ms st = (st', True) \<Longrightarrow> fle (best_error st') (Fin t)"
proof (induction ms arbitrary: st)
  case Nil
  then show ?case by simp
next
  case (Cons m rest)
  then show ?case
    by (simp only: scan_Cons_with split: if_splits) (auto simp: accepted_with_def)
qed

lemma scan_exhausted_with:
  "fless (Fin t) (best_error st) \<Longrightarrow> scan_with np d ocv bs t ms st = (st', False) \<Longrightarrow>
     (\<forall>m\<in>set ms. \<not> fle (candidate_error_with np d ocv bs m) (Fin t)) \<and>
     scales_tried st' = scales_tried st + length ms"
proof (induction ms arbitrary: st)
  case Nil
  then show ?case by simp
next
  case (Cons m rest)
  let ?E = "candidate_error_with np d ocv bs"
  show ?case
  proof (cases "fless (?E m) (best_error st)")
    case True
    with Cons.prems(2) have nm: "\<not> fle (?E m) (Fin t)"
      and run: "scan_with np d ocv bs t rest (accepted_with np d ocv bs m (scales_tried st + 1)) = (st', False)"
      by (simp_all only: scan_Cons_with split: if_splits) simp_all
    from True have "\<not> is_nan (?E m)" by (simp add: fless_not_nan)
    with nm have "fless (Fin t) (best_error (accepted_with np d ocv bs m (scales_tried st + 1)))"
      by (simp add: not_fle_fless accepted_with_def)
    from Cons.IH [OF this run] nm show ?thesis by (simp add: accepted_with_def)
  next
    case False
    with Cons.prems(2) have
      run: "scan_with np d ocv bs t rest (st\<lparr>scales_tried := scales_tried st + 1\<rparr>) = (st', False)"
      by (simp only: scan_Cons_with split: if_splits)
    from False Cons.prems(1) have nm: "\<not> fle (?E m) (Fin t)"
      using fle_fless_trans by blast
    from Cons.prems(1) have "fless (Fin t) (best_error (st\<lparr>scales_tried := scales_tried st + 1\<rparr>))"
      by simp
    from Cons.IH [OF this run] nm show ?thesis by simp
  qed
qed

lemma accepted_sel_with [simp]:
  "best_error (accepted_with np d ocv bs m n) = candidate_error_with np d ocv bs m"
  "best_scale (accepted_with np d ocv bs m n) = lib_value np (scale_factor_with np bs m)"
  "best_data (accepted_with np d ocv bs m n) = Some (rounded_data_with np d (scale_factor_with np bs m))"
  "scales_tried (accepted_with np d ocv bs m n) = n"
  by (simp_all add: accepted_with_def)

lemma tracks_initial_with: "tracks_with np d ocv bs [] (initial_state (lib_value np bs))"
  by (simp add: tracks_with_def initial_state_def)

lemma tracks_skip_with:
  assumes "tracks_with np d ocv bs ex st"
    and "\<not> fless (candidate_error_with np d ocv bs m) (best_error st)"
  shows "tracks_with np d ocv bs (ex @ [m]) (st\<lparr>scales_tried := n\<rparr>)"
proof (cases "best_data st")
  case None
  with assms show ?thesis by (auto simp: tracks_with_def)
next
  case (Some x)
  with assms(1) obtain i where i: "i < length ex"
    and st: "st = accepted_with np d ocv bs (ex ! i) (scales_tried st)"
    and below: "fless (candidate_error_with np d ocv bs (ex ! i)) PInf"
    and first: "\<forall>j<i. \<not> fle (candidate_error_with np d ocv bs (ex ! j))
                          (candidate_error_with np d ocv bs (ex ! i))"
    by (auto simp: tracks_with_def)
  from st have "st\<lparr>scales_tried := n\<rparr> = accepted_with np d ocv bs (ex ! i) n"
    by (metis accepted_with_def search_state.update_convs(4))
  with i first below have
    "\<exists>i<length (ex @ [m]).
       st\<lparr>scales_tried := n\<rparr> =
         accepted_with np d ocv bs ((ex @ [m]) ! i) (scales_tried (st\<lparr>scales_tried := n\<rparr>)) \<and>
       fless (candidate_error_with np d ocv bs ((ex @ [m]) ! i)) PInf \<and>
       (\<forall>j<i. \<not> fle (candidate_error_with np d ocv bs ((ex @ [m]) ! j))
                    (candidate_error_with np d ocv bs ((ex @ [m]) ! i)))"
    by (intro exI [of _ i]) (simp add: nth_append)
  with assms Some show ?thesis by (simp add: tracks_with_def)
qed

lemma tracks_accept_with:
  assumes "tracks_with np d ocv bs ex st"
    and "fless (candidate_error_with np d ocv bs m) (best_error st)"
  shows "tracks_with np d ocv bs (ex @ [m]) (accepted_with np d ocv bs m n)"
proof -
  let ?E = "candidate_error_with np d ocv bs"
  have a: "\<not> fless (?E m') (?E m)" if "m' \<in> set ex" for m'
    using that assms fless_trans by (auto simp: tracks_with_def)
  have b: "\<not> fle (?E m') (?E m)" if "m' \<in> set ex" for m'
    using that assms fle_fless_trans by (auto simp: tracks_with_def)
  have c: "\<not> is_nan (?E m)" using assms(2) by (simp add: fless_not_nan)
  have "\<forall>j<length ex. \<not> fle (?E ((ex @ [m]) ! j)) (?E ((ex @ [m]) ! length ex))"
    using b by (simp add: nth_append)
  moreover have "fless (?E ((ex @ [m]) ! length ex)) PInf"
    using assms(2) by (simp add: fless_below_PInf)
  ultimately have
    "\<exists>i<length (ex @ [m]).
       accepted_with np d ocv bs m n =
         accepted_with np d ocv bs ((ex @ [m]) ! i) (scales_tried (accepted_with np d ocv bs m n)) \<and>
       fless (?E ((ex @ [m]) ! i)) PInf \<and>
       (\<forall>j<i. \<not> fle (?E ((ex @ [m]) ! j)) (?E ((ex @ [m]) ! i)))"
    by (intro exI [of _ "length ex"]) (simp add: accepted_with_def)
  moreover have "best_error (accepted_with np d ocv bs m n) = ?E m"
    and "best_data (accepted_with np d ocv bs m n) =
      Some (rounded_data_with np d (scale_factor_with np bs m))"
    by (simp_all add: accepted_with_def)
  ultimately show ?thesis
    using a c unfolding tracks_with_def by (auto simp: fless_irrefl)
qed

lemma scan_tracks_with:
  "tracks_with np d ocv bs ex st \<Longrightarrow> scan_with np d ocv bs t ms st = (st', b) \<Longrightarrow>
     \<exists>k\<le>length ms. scales_tried st' = scales_tried st + k \<and>
        tracks_with np d ocv bs (ex @ take k ms) st'"
proof (induction ms arbitrary: ex st)
  case Nil
  then show ?case by simp
next
  case (Cons m rest)
  let ?E = "candidate_error_with np d ocv bs"
  let ?acc = "accepted_with np d ocv bs m (scales_tried st + 1)"
  let ?skip = "st\<lparr>scales_tried := scales_tried st + 1\<rparr>"
  consider (stop) "fless (?E m) (best_error st)" "fle (?E m) (Fin t)"
    | (improve) "fless (?E m) (best_error st)" "\<not> fle (?E m) (Fin t)"
    | (skip) "\<not> fless (?E m) (best_error st)" by blast
  then show ?case
  proof cases
    case stop
    with Cons.prems(2) have "st' = ?acc" by (simp only: scan_Cons_with) simp
    moreover have "tracks_with np d ocv bs (ex @ [m]) ?acc"
      using Cons.prems(1) stop(1) by (rule tracks_accept_with)
    ultimately show ?thesis
      by (intro exI [of _ 1]) (simp add: accepted_with_def)
  next
    case improve
    with Cons.prems(2) have run: "scan_with np d ocv bs t rest ?acc = (st', b)"
      by (simp only: scan_Cons_with) simp
    have "tracks_with np d ocv bs (ex @ [m]) ?acc"
      using Cons.prems(1) improve(1) by (rule tracks_accept_with)
    from Cons.IH [OF this run] obtain k where "k \<le> length rest"
      "scales_tried st' = scales_tried ?acc + k"
      "tracks_with np d ocv bs ((ex @ [m]) @ take k rest) st'" by blast
    then show ?thesis
      by (intro exI [of _ "Suc k"]) (simp add: accepted_with_def)
  next
    case skip
    with Cons.prems(2) have run: "scan_with np d ocv bs t rest ?skip = (st', b)"
      by (simp only: scan_Cons_with) simp
    have "tracks_with np d ocv bs (ex @ [m]) ?skip"
      using Cons.prems(1) skip by (rule tracks_skip_with)
    from Cons.IH [OF this run] obtain k where "k \<le> length rest"
      "scales_tried st' = scales_tried ?skip + k"
      "tracks_with np d ocv bs ((ex @ [m]) @ take k rest) st'" by blast
    then show ?thesis
      by (intro exI [of _ "Suc k"]) simp
  qed
qed

lemma scan_append_with:
  "scan_with np d ocv bs t (xs @ ys) st =
     (case scan_with np d ocv bs t xs st of
        (st', True) \<Rightarrow> (st', True)
      | (st', False) \<Rightarrow> scan_with np d ocv bs t ys st')"
proof (induction xs arbitrary: st)
  case Nil
  show ?case by simp
next
  case (Cons m rest)
  show ?case
    by (simp only: append_Cons scan_Cons_with Cons.IH) simp
qed

lemma scan_stopped_with:
  assumes "fless (Fin t) (best_error st)"
    and "scan_with np d ocv bs t ms st = (st', True)"
  shows "\<exists>k<length ms.
     st' = accepted_with np d ocv bs (ms ! k) (scales_tried st + k + 1) \<and>
     fle (candidate_error_with np d ocv bs (ms ! k)) (Fin t) \<and>
     (\<forall>j<k. \<not> fle (candidate_error_with np d ocv bs (ms ! j)) (Fin t))"
  using assms
proof (induction ms arbitrary: st)
  case Nil
  then show ?case by simp
next
  case (Cons m rest)
  let ?E = "candidate_error_with np d ocv bs"
  let ?acc = "accepted_with np d ocv bs m (scales_tried st + 1)"
  let ?skip = "st\<lparr>scales_tried := scales_tried st + 1\<rparr>"
  consider (stop) "fless (?E m) (best_error st)" "fle (?E m) (Fin t)"
    | (improve) "fless (?E m) (best_error st)" "\<not> fle (?E m) (Fin t)"
    | (skip) "\<not> fless (?E m) (best_error st)" by blast
  then show ?case
  proof cases
    case stop
    with Cons.prems(2) have "st' = ?acc" by (simp only: scan_Cons_with) simp
    with stop(2) show ?thesis by (intro exI [of _ 0]) simp
  next
    case improve
    with Cons.prems(2) have run: "scan_with np d ocv bs t rest ?acc = (st', True)"
      by (simp only: scan_Cons_with) simp
    from improve have "fless (Fin t) (best_error ?acc)"
      by (simp add: not_fle_fless fless_not_nan)
    from Cons.IH [OF this run] obtain k where k: "k < length rest"
      and st': "st' = accepted_with np d ocv bs (rest ! k) (scales_tried ?acc + k + 1)"
      and meets: "fle (?E (rest ! k)) (Fin t)"
      and before: "\<forall>j<k. \<not> fle (?E (rest ! j)) (Fin t)" by blast
    have "\<forall>j<Suc k. \<not> fle (?E ((m # rest) ! j)) (Fin t)"
      using improve(2) before by (auto simp: less_Suc_eq_0_disj)
    with k st' meets show ?thesis by (intro exI [of _ "Suc k"]) simp
  next
    case skip
    with Cons.prems(2) have run: "scan_with np d ocv bs t rest ?skip = (st', True)"
      by (simp only: scan_Cons_with) simp
    from skip Cons.prems(1) have nm: "\<not> fle (?E m) (Fin t)"
      using fle_fless_trans by blast
    from Cons.prems(1) have "fless (Fin t) (best_error ?skip)" by simp
    from Cons.IH [OF this run] obtain k where k: "k < length rest"
      and st': "st' = accepted_with np d ocv bs (rest ! k) (scales_tried ?skip + k + 1)"
      and meets: "fle (?E (rest ! k)) (Fin t)"
      and before: "\<forall>j<k. \<not> fle (?E (rest ! j)) (Fin t)" by blast
    have "\<forall>j<Suc k. \<not> fle (?E ((m # rest) ! j)) (Fin t)"
      using nm before by (auto simp: less_Suc_eq_0_disj)
    with k st' meets show ?thesis by (intro exI [of _ "Suc k"]) simp
  qed
qed

lemma scan_summary_with:
  assumes run: "scan_with np d ocv bs t xs (initial_state (lib_value np bs)) = (st, stopped)"
  shows "scales_tried st \<le> length xs"
    and "\<forall>j<scales_tried st. \<not> fless (candidate_error_with np d ocv bs (xs ! j)) (best_error st)"
    and "\<forall>j<scales_tried st. \<not> is_nan (candidate_error_with np d ocv bs (xs ! j)) \<longrightarrow>
       fle (best_error st) (candidate_error_with np d ocv bs (xs ! j))"
    and "\<forall>x. best_data st = Some x \<longrightarrow>
       (\<exists>i<scales_tried st.
          st = accepted_with np d ocv bs (xs ! i) (scales_tried st) \<and>
          fless (candidate_error_with np d ocv bs (xs ! i)) PInf \<and>
          (\<forall>j<i. \<not> fle (candidate_error_with np d ocv bs (xs ! j))
                       (candidate_error_with np d ocv bs (xs ! i))))"
    and "best_data st = None \<longrightarrow>
       best_error st = PInf \<and> best_scale st = lib_value np bs \<and>
       (\<forall>j<scales_tried st. candidate_error_with np d ocv bs (xs ! j) = PInf \<or>
          candidate_error_with np d ocv bs (xs ! j) = NaN)"
    and "\<not> stopped \<longrightarrow>
       scales_tried st = length xs \<and>
       (\<forall>j<length xs. \<not> fle (candidate_error_with np d ocv bs (xs ! j)) (Fin t))"
    and "stopped \<longrightarrow>
       0 < scales_tried st \<and>
       st = accepted_with np d ocv bs (xs ! (scales_tried st - 1)) (scales_tried st) \<and>
       fle (candidate_error_with np d ocv bs (xs ! (scales_tried st - 1))) (Fin t) \<and>
       (\<forall>j<scales_tried st - 1. \<not> fle (candidate_error_with np d ocv bs (xs ! j)) (Fin t))"
proof -
  let ?E = "candidate_error_with np d ocv bs"
  from scan_tracks_with [OF tracks_initial_with run] obtain k where "k \<le> length xs"
    "scales_tried st = scales_tried (initial_state (lib_value np bs)) + k"
    "tracks_with np d ocv bs ([] @ take k xs) st" by blast
  then have k: "scales_tried st \<le> length xs"
    and tr: "tracks_with np d ocv bs (take (scales_tried st) xs) st"
    by (simp_all add: initial_state_def)
  show "scales_tried st \<le> length xs" by (rule k)
  have nth: "take (scales_tried st) xs ! j = xs ! j" if "j < scales_tried st" for j
    using that by simp
  have mem: "xs ! j \<in> set (take (scales_tried st) xs)" if "j < scales_tried st" for j
  proof -
    from that k have "j < length (take (scales_tried st) xs)" by simp
    then have "take (scales_tried st) xs ! j \<in> set (take (scales_tried st) xs)"
      by (rule nth_mem)
    with that show ?thesis by simp
  qed
  have a: "\<not> fless (?E (xs ! j)) (best_error st)" if "j < scales_tried st" for j
    using tr mem [OF that] by (simp add: tracks_with_def)
  then show "\<forall>j<scales_tried st. \<not> fless (?E (xs ! j)) (best_error st)" by blast
  have nn: "\<not> is_nan (best_error st)" using tr by (simp add: tracks_with_def)
  have b: "fle (best_error st) (?E (xs ! j))"
    if "j < scales_tried st" "\<not> is_nan (?E (xs ! j))" for j
    using a [OF that(1)] that(2) nn by (rule not_fless_fle)
  then show "\<forall>j<scales_tried st. \<not> is_nan (?E (xs ! j)) \<longrightarrow> fle (best_error st) (?E (xs ! j))"
    by blast
  have c: "\<exists>i<scales_tried st.
          st = accepted_with np d ocv bs (xs ! i) (scales_tried st) \<and>
          fless (?E (xs ! i)) PInf \<and>
          (\<forall>j<i. \<not> fle (?E (xs ! j)) (?E (xs ! i)))" if "best_data st = Some x" for x
  proof -
    from tr that have "\<exists>i<length (take (scales_tried st) xs).
        st = accepted_with np d ocv bs (take (scales_tried st) xs ! i) (scales_tried st) \<and>
        fless (?E (take (scales_tried st) xs ! i)) PInf \<and>
        (\<forall>j<i. \<not> fle (?E (take (scales_tried st) xs ! j)) (?E (take (scales_tried st) xs ! i)))"
      by (simp add: tracks_with_def)
    then obtain i where "i < length (take (scales_tried st) xs)"
      and st: "st = accepted_with np d ocv bs (take (scales_tried st) xs ! i) (scales_tried st)"
      and below: "fless (?E (take (scales_tried st) xs ! i)) PInf"
      and first: "\<forall>j<i. \<not> fle (?E (take (scales_tried st) xs ! j)) (?E (take (scales_tried st) xs ! i))"
      by blast
    with k have i: "i < scales_tried st" by simp
    from i st have "st = accepted_with np d ocv bs (xs ! i) (scales_tried st)"
      by (simp only: nth)
    moreover from i below have "fless (?E (xs ! i)) PInf" by simp
    moreover from i first have "\<forall>j<i. \<not> fle (?E (xs ! j)) (?E (xs ! i))"
      by simp
    ultimately show ?thesis using i by blast
  qed
  then show "\<forall>x. best_data st = Some x \<longrightarrow>
       (\<exists>i<scales_tried st.
          st = accepted_with np d ocv bs (xs ! i) (scales_tried st) \<and>
          fless (?E (xs ! i)) PInf \<and>
          (\<forall>j<i. \<not> fle (?E (xs ! j)) (?E (xs ! i))))" by blast
  show "best_data st = None \<longrightarrow>
       best_error st = PInf \<and> best_scale st = lib_value np bs \<and>
       (\<forall>j<scales_tried st. ?E (xs ! j) = PInf \<or> ?E (xs ! j) = NaN)"
  proof
    assume none: "best_data st = None"
    with tr have p: "best_error st = PInf" and q: "best_scale st = lib_value np bs"
      by (simp_all add: tracks_with_def)
    from a p have "\<forall>j<scales_tried st. \<not> fless (?E (xs ! j)) PInf" by simp
    with p q show "best_error st = PInf \<and> best_scale st = lib_value np bs \<and>
       (\<forall>j<scales_tried st. ?E (xs ! j) = PInf \<or> ?E (xs ! j) = NaN)"
      by (blast dest: not_fless_PInf)
  qed
  have start: "fless (Fin t) (best_error (initial_state (lib_value np bs)))"
    by (simp add: initial_state_def)
  show "\<not> stopped \<longrightarrow>
       scales_tried st = length xs \<and> (\<forall>j<length xs. \<not> fle (?E (xs ! j)) (Fin t))"
  proof
    assume "\<not> stopped"
    with run have "scan_with np d ocv bs t xs (initial_state (lib_value np bs)) = (st, False)"
      by simp
    from scan_exhausted_with [OF start this]
    have "\<forall>m\<in>set xs. \<not> fle (?E m) (Fin t)" and "scales_tried st = length xs"
      by (simp_all add: initial_state_def)
    then show "scales_tried st = length xs \<and> (\<forall>j<length xs. \<not> fle (?E (xs ! j)) (Fin t))"
      by simp
  qed
  show "stopped \<longrightarrow>
       0 < scales_tried st \<and>
       st = accepted_with np d ocv bs (xs ! (scales_tried st - 1)) (scales_tried st) \<and>
       fle (?E (xs ! (scales_tried st - 1))) (Fin t) \<and>
       (\<forall>j<scales_tried st - 1. \<not> fle (?E (xs ! j)) (Fin t))"
  proof
    assume "stopped"
    with run have "scan_with np d ocv bs t xs (initial_state (lib_value np bs)) = (st, True)"
      by simp
    from scan_stopped_with [OF start this] obtain i where "i < length xs"
      and st: "st = accepted_with np d ocv bs (xs ! i)
                 (scales_tried (initial_state (lib_value np bs)) + i + 1)"
      and meets: "fle (?E (xs ! i)) (Fin t)"
      and before: "\<forall>j<i. \<not> fle (?E (xs ! j)) (Fin t)" by blast
    from st have n: "scales_tried st = i + 1"
      by (metis accepted_sel_with(4) add_0 initial_state_def search_state.select_convs(4))
    with st have "st = accepted_with np d ocv bs (xs ! (scales_tried st - 1)) (scales_tried st)"
      by (simp add: initial_state_def)
    with n meets before show "0 < scales_tried st \<and>
       st = accepted_with np d ocv bs (xs ! (scales_tried st - 1)) (scales_tried st) \<and>
       fle (?E (xs ! (scales_tried st - 1))) (Fin t) \<and>
       (\<forall>j<scales_tried st - 1. \<not> fle (?E (xs ! j)) (Fin t))"
      by simp
  qed
qed

lemma search_with_Inr:
  "lib_arange np min_scale max_scale step = Inr ms \<Longrightarrow>
   optimize_scaling_search_with np d tm te min_scale max_scale step =
     Inr (scan_with np d (calculate_cv_with np d) (base_scale_with np d tm) te ms
            (initial_state (lib_value np (base_scale_with np d tm))))"
  by (simp add: optimize_scaling_search_with_def Let_def)

lemma search_with_Inl:
  "lib_arange np min_scale max_scale step = Inl e \<Longrightarrow>
   optimize_scaling_search_with np d tm te min_scale max_scale step = Inl (ArangeRaised e)"
  by (simp add: optimize_scaling_search_with_def Let_def)

subsection \<open>The search on exact numbers is the search over the exact operations\<close>

lemma exact_numpy_fields [simp]:
  "lib_value (exact_numpy cnf) x = x"
  "lib_mean (exact_numpy cnf) = np_mean"
  "lib_std (exact_numpy cnf) = np_std"
  "lib_mean_int (exact_numpy cnf) zs = np_mean (map real_of_int zs)"
  "lib_std_int (exact_numpy cnf) zs = np_std (map real_of_int zs)"
  "lib_rdiv (exact_numpy cnf) a y = fdiv (Fin a) y"
  "lib_div (exact_numpy cnf) = fdiv"
  "lib_mul (exact_numpy cnf) = fmul"
  "lib_mul_elem (exact_numpy cnf) a y = fmul (Fin a) y"
  "lib_sub (exact_numpy cnf) = fsub"
  "lib_abs (exact_numpy cnf) = fabs"
  "lib_quantize (exact_numpy cnf) y = astype_int cnf (np_round y)"
  "lib_arange (exact_numpy cnf) start stop step = map_sum (\<lambda>e. e) (map Fin) (arange start stop step)"
  by (simp_all add: exact_numpy_def)

lemma exact_calculate_cv: "calculate_cv_with (exact_numpy cnf) d = calculate_cv d"
  by (simp add: calculate_cv_with_def calculate_cv_def)

lemma exact_base_scale: "base_scale_with (exact_numpy cnf) d tm = base_scale_of d tm"
  by (simp add: base_scale_with_def base_scale_of_def)

lemma exact_scale_factor: "scale_factor_with (exact_numpy cnf) bs (Fin m) = scale_factor bs m"
  by (simp add: scale_factor_with_def scale_factor_def)

lemma exact_rounded_data: "rounded_data_with (exact_numpy cnf) d sf = rounded_data cnf d sf"
  by (simp add: rounded_data_with_def scaled_data_with_def rounded_data_def scaled_data_def
      comp_def)

lemma exact_cv_error: "cv_error_with (exact_numpy cnf) ocv r = cv_error ocv r"
  by (simp add: cv_error_with_def cv_error_def calculate_cv_int_with_def calculate_cv_def)

lemma exact_candidate_error:
  "candidate_error_with (exact_numpy cnf) d ocv bs (Fin m) = candidate_error cnf d ocv bs m"
  by (simp add: candidate_error_with_def candidate_error_def exact_cv_error exact_rounded_data
      exact_scale_factor)

lemma exact_accepted:
  "accepted_with (exact_numpy cnf) d ocv bs (Fin m) n = accepted cnf d ocv bs m n"
  by (simp add: accepted_with_def accepted_def exact_candidate_error exact_rounded_data
      exact_scale_factor)

lemma exact_scan:
  "scan_with (exact_numpy cnf) d ocv bs t (map Fin ms) st = scan cnf d ocv bs t ms st"
proof (induction ms arbitrary: st)
  case Nil
  show ?case by simp
next
  case (Cons m rest)
  show ?case
    by (simp only: list.map scan_Cons_with scan_Cons exact_candidate_error exact_accepted
        Cons.IH)
qed

lemma exact_arange_Inr:
  "arange lo hi step = Inr ms \<Longrightarrow> lib_arange (exact_numpy cnf) lo hi step = Inr (map Fin ms)"
  by simp

lemma exact_search_Inr:
  "optimize_scaling_search cnf d tm te lo hi step = Inr r \<Longrightarrow>
   optimize_scaling_search_with (exact_numpy cnf) d tm te lo hi step = Inr r"
  by (cases "arange lo hi step")
     (simp_all add: optimize_scaling_search_def optimize_scaling_search_with_def Let_def
        exact_scan exact_calculate_cv exact_base_scale)

lemma exact_call_Inr:
  "optimize_scaling cnf d tm te lo hi step verbose = Inr r \<Longrightarrow>
   optimize_scaling_with (exact_numpy cnf) d tm te lo hi step verbose = Inr r"
proof -
  assume a: "optimize_scaling cnf d tm te lo hi step verbose = Inr r"
  then obtain st stopped where
    s: "optimize_scaling_search cnf d tm te lo hi step = Inr (st, stopped)"
    by (auto simp: optimize_scaling_def split: sum.splits)
  from exact_search_Inr [OF s] a s show ?thesis
    by (simp add: optimize_scaling_def optimize_scaling_with_def split: if_splits)
qed

subsection \<open>The executions are those of the function\<close>

inductive_cases scan_run_NilE: "scan_run np d ocv bs t [] st r"

inductive_cases scan_run_ConsE: "scan_run np d ocv bs t (m # rest) st r"

lemma scan_run_deterministic:
  "scan_run np d ocv bs t ms st r1 \<Longrightarrow> scan_run np d ocv bs t ms st r2 \<Longrightarrow> r1 = r2"
proof (induction arbitrary: r2 rule: scan_run.induct)
  case (exhausted st)
  then show ?case by (auto elim: scan_run_NilE)
next
  case (not_better scale_multiplier st rest r)
  from not_better.prems not_better.hyps(1) show ?case
    by (elim scan_run_ConsE) (auto dest: not_better.IH [simplified])
next
  case (better scale_multiplier st rest r)
  from better.prems better.hyps(1,2) show ?case
    by (elim scan_run_ConsE) (auto dest: better.IH [simplified])
next
  case (within_target scale_multiplier st rest)
  from within_target.prems within_target.hyps show ?case
    by (elim scan_run_ConsE) auto
qed

lemma scan_run_total:
  "scan_run np d ocv bs t ms st (scan_with np d ocv bs t ms st)"
proof (induction ms arbitrary: st)
  case Nil
  show ?case by (simp add: scan_run.exhausted)
next
  case (Cons m rest)
  let ?err = "lib_value np (cv_error_with np ocv
      (rounded_data_with np d (scale_factor_with np bs m)))"
  consider (stop) "fless ?err (best_error st)" "fle ?err (Fin t)"
    | (improve) "fless ?err (best_error st)" "\<not> fle ?err (Fin t)"
    | (skip) "\<not> fless ?err (best_error st)" by blast
  then show ?case
  proof cases
    case stop
    from scan_run.within_target [OF stop] stop show ?thesis
      by (simp add: Let_def)
  next
    case improve
    from scan_run.better [OF improve Cons.IH] improve show ?thesis
      by (simp add: Let_def)
  next
    case skip
    from scan_run.not_better [OF skip Cons.IH] skip show ?thesis
      by (simp add: Let_def)
  qed
qed

lemma scan_run_iff:
  "scan_run np d ocv bs t ms st r \<longleftrightarrow> r = scan_with np d ocv bs t ms st"
  using scan_run_deterministic scan_run_total by metis




subsection \<open>The quantizer with the cast to \<open>int64\<close>\<close>

lemma int64_numpy_quantize:
  "lib_quantize (int64_numpy cnf) y = astype_int64 cnf (np_round (lib_value (int64_numpy cnf) y))"
  by (simp add: int64_numpy_def exact_numpy_def)

lemma astype_int64_in_range:
  "- (2 ^ 63) \<le> z \<Longrightarrow> z < 2 ^ 63 \<Longrightarrow> astype_int64 cnf (Fin (real_of_int z)) = z"
  by (simp add: astype_int64_def trunc_int_of_int)

lemma rounded_data_with_length: "length (rounded_data_with np d sf) = length d"
  by (simp add: rounded_data_with_def scaled_data_with_def)

lemma rounded_data_with_nth:
  "i < length d \<Longrightarrow>
   rounded_data_with np d sf ! i = lib_quantize np (lib_mul_elem np (d ! i) sf)"
  by (simp add: rounded_data_with_def scaled_data_with_def)

subsection \<open>Rounding to \<open>float64\<close> is monotone\<close>

lemma round_half_even_of_int [simp]: "round_half_even (real_of_int z) = z"
  by (simp add: round_half_even_def)

lemma round_half_even_cases:
  "round_half_even x = \<lfloor>x\<rfloor> \<or> round_half_even x = \<lfloor>x\<rfloor> + 1"
  by (simp add: round_half_even_def Let_def)

lemma round_half_even_mono:
  assumes "x \<le> y"
  shows "round_half_even x \<le> round_half_even y"
proof (cases "\<lfloor>x\<rfloor> = \<lfloor>y\<rfloor>")
  case True
  with assms have "x - real_of_int \<lfloor>x\<rfloor> \<le> y - real_of_int \<lfloor>y\<rfloor>" by simp
  with True show ?thesis
    by (auto simp: round_half_even_def Let_def)
next
  case False
  with assms have "\<lfloor>x\<rfloor> < \<lfloor>y\<rfloor>"
    by (meson floor_mono le_less)
  moreover have "round_half_even x \<le> \<lfloor>x\<rfloor> + 1"
    using round_half_even_cases [of x] by auto
  moreover have "\<lfloor>y\<rfloor> \<le> round_half_even y"
    using round_half_even_cases [of y] by auto
  ultimately show ?thesis by linarith
qed

lemma round_half_even_minus: "round_half_even (- x) = - round_half_even x"
proof (cases "x = real_of_int \<lfloor>x\<rfloor>")
  case True
  then have "round_half_even x = \<lfloor>x\<rfloor>"
    by (metis round_half_even_of_int)
  moreover from True have "- x = real_of_int (- \<lfloor>x\<rfloor>)" by simp
  then have "round_half_even (- x) = - \<lfloor>x\<rfloor>"
    by (metis round_half_even_of_int)
  ultimately show ?thesis by simp
next
  case False
  then have lt: "real_of_int \<lfloor>x\<rfloor> < x" by linarith
  have "\<lfloor>- x\<rfloor> = - \<lfloor>x\<rfloor> - 1"
    using lt by (simp add: floor_eq_iff) linarith
  with lt show ?thesis
    by (auto simp: round_half_even_def Let_def)
qed

lemma binary64_exponent_minus [simp]: "binary64_exponent (- x) = binary64_exponent x"
  by (simp add: binary64_exponent_def)

lemma binary64_nearest_minus [simp]: "binary64_nearest (- x) = - binary64_nearest x"
  by (simp add: binary64_nearest_def Let_def round_half_even_minus)

lemma binary64_minus: "binary64 (- x) = fneg (binary64 x)"
  by (simp add: binary64_def Let_def)

lemma binary64_exponent_mono:
  assumes "0 < x" "x \<le> y"
  shows "binary64_exponent x \<le> binary64_exponent y"
proof -
  from assms have "log 2 x \<le> log 2 y" by simp
  then have "\<lfloor>log 2 x\<rfloor> \<le> \<lfloor>log 2 y\<rfloor>" by (rule floor_mono)
  with assms show ?thesis by (simp add: binary64_exponent_def)
qed

lemma below_next_power:
  assumes "0 < x"
  shows "x < 2 powr (real_of_int (binary64_exponent x) + 1)"
proof -
  have "x < 2 powr (real_of_int \<lfloor>log 2 x\<rfloor> + 1)"
    using assms floor_log_eq_powr_iff [of x 2 "\<lfloor>log 2 x\<rfloor>"] by simp
  also have "\<dots> \<le> 2 powr (real_of_int (binary64_exponent x) + 1)"
    using assms by (intro powr_mono) (simp_all add: binary64_exponent_def)
  finally show ?thesis .
qed

lemma above_power:
  assumes "0 < x" "- 1022 \<le> \<lfloor>log 2 x\<rfloor>"
  shows "2 powr real_of_int (binary64_exponent x) \<le> x"
proof -
  from assms have "binary64_exponent x = \<lfloor>log 2 x\<rfloor>"
    by (simp add: binary64_exponent_def)
  moreover have "2 powr real_of_int \<lfloor>log 2 x\<rfloor> \<le> x"
    using assms(1) floor_log_eq_powr_iff [of x 2 "\<lfloor>log 2 x\<rfloor>"] by simp
  ultimately show ?thesis by simp
qed

lemma ulp_split:
  "2 powr real_of_int e = 2 ^ 52 * 2 powr (real_of_int e - 52)"
  "2 powr (real_of_int e + 1) = 2 ^ 53 * 2 powr (real_of_int e - 52)"
proof -
  have "real_of_int e = 52 + (real_of_int e - 52)" by simp
  then have "2 powr real_of_int e = 2 powr (52 + (real_of_int e - 52))"
    by (rule arg_cong)
  also have "\<dots> = 2 powr 52 * 2 powr (real_of_int e - 52)" by (rule powr_add)
  finally show "2 powr real_of_int e = 2 ^ 52 * 2 powr (real_of_int e - 52)" by simp
  have "real_of_int e + 1 = 53 + (real_of_int e - 52)" by simp
  then have "2 powr (real_of_int e + 1) = 2 powr (53 + (real_of_int e - 52))"
    by (rule arg_cong)
  also have "\<dots> = 2 powr 53 * 2 powr (real_of_int e - 52)" by (rule powr_add)
  finally show "2 powr (real_of_int e + 1) = 2 ^ 53 * 2 powr (real_of_int e - 52)" by simp
qed

lemma binary64_nearest_upper:
  assumes "0 < x"
  shows "binary64_nearest x \<le> 2 powr (real_of_int (binary64_exponent x) + 1)"
proof -
  let ?u = "2 powr (real_of_int (binary64_exponent x) - 52)"
  have u: "0 < ?u" by simp
  from below_next_power [OF assms] have "x < 2 ^ 53 * ?u" by (simp only: ulp_split)
  with u have "x / ?u \<le> 2 ^ 53" by (simp add: pos_divide_le_eq)
  then have "round_half_even (x / ?u) \<le> round_half_even (real_of_int (2 ^ 53))"
    by (intro round_half_even_mono) simp
  then have "round_half_even (x / ?u) \<le> 2 ^ 53" by (simp only: round_half_even_of_int)
  then have "real_of_int (round_half_even (x / ?u)) \<le> real_of_int (2 ^ 53)"
    by (simp only: of_int_le_iff)
  then have "real_of_int (round_half_even (x / ?u)) \<le> 2 ^ 53" by simp
  with u have "real_of_int (round_half_even (x / ?u)) * ?u \<le> 2 ^ 53 * ?u"
    by (intro mult_right_mono) simp_all
  then show ?thesis by (simp only: binary64_nearest_def Let_def ulp_split)
qed

lemma binary64_nearest_lower:
  assumes "0 < x" "- 1022 \<le> \<lfloor>log 2 x\<rfloor>"
  shows "2 powr real_of_int (binary64_exponent x) \<le> binary64_nearest x"
proof -
  let ?u = "2 powr (real_of_int (binary64_exponent x) - 52)"
  have u: "0 < ?u" by simp
  from above_power [OF assms] have "2 ^ 52 * ?u \<le> x" by (simp only: ulp_split)
  with u have "2 ^ 52 \<le> x / ?u" by (simp add: pos_le_divide_eq)
  then have "round_half_even (real_of_int (2 ^ 52)) \<le> round_half_even (x / ?u)"
    by (intro round_half_even_mono) simp
  then have "2 ^ 52 \<le> round_half_even (x / ?u)" by (simp only: round_half_even_of_int)
  then have "real_of_int (2 ^ 52) \<le> real_of_int (round_half_even (x / ?u))"
    by (simp only: of_int_le_iff)
  then have "2 ^ 52 \<le> real_of_int (round_half_even (x / ?u))" by simp
  with u have "2 ^ 52 * ?u \<le> real_of_int (round_half_even (x / ?u)) * ?u"
    by (intro mult_right_mono) simp_all
  then show ?thesis by (simp only: binary64_nearest_def Let_def ulp_split)
qed

lemma binary64_nearest_nonneg:
  assumes "0 \<le> x"
  shows "0 \<le> binary64_nearest x"
proof -
  let ?u = "2 powr (real_of_int (binary64_exponent x) - 52)"
  from assms have "0 \<le> x / ?u" by simp
  then have "round_half_even (real_of_int 0) \<le> round_half_even (x / ?u)"
    by (intro round_half_even_mono) simp
  then have "0 \<le> round_half_even (x / ?u)" by (simp only: round_half_even_of_int)
  then show ?thesis by (simp add: binary64_nearest_def Let_def)
qed

lemma binary64_nearest_mono_pos:
  assumes "0 < x" "x \<le> y"
  shows "binary64_nearest x \<le> binary64_nearest y"
proof (cases "binary64_exponent x = binary64_exponent y")
  case True
  let ?u = "2 powr (real_of_int (binary64_exponent y) - 52)"
  from assms have "x / ?u \<le> y / ?u" by (simp add: divide_right_mono)
  then have "round_half_even (x / ?u) \<le> round_half_even (y / ?u)"
    by (rule round_half_even_mono)
  then have "real_of_int (round_half_even (x / ?u)) * ?u \<le>
      real_of_int (round_half_even (y / ?u)) * ?u"
    by (intro mult_right_mono) simp_all
  with True show ?thesis by (simp add: binary64_nearest_def Let_def)
next
  case False
  with binary64_exponent_mono [OF assms]
  have lt: "binary64_exponent x < binary64_exponent y" by simp
  have "- 1022 \<le> binary64_exponent x" by (simp add: binary64_exponent_def)
  with lt have "- 1022 < binary64_exponent y" by simp
  from assms have y: "0 < y" by simp
  then have "binary64_exponent y = max \<lfloor>log 2 y\<rfloor> (- 1022)"
    by (simp add: binary64_exponent_def)
  with \<open>- 1022 < binary64_exponent y\<close> have fl: "- 1022 \<le> \<lfloor>log 2 y\<rfloor>" by arith
  have "binary64_nearest x \<le> 2 powr (real_of_int (binary64_exponent x) + 1)"
    using assms(1) by (rule binary64_nearest_upper)
  also have "\<dots> \<le> 2 powr real_of_int (binary64_exponent y)"
    using lt by (intro powr_mono) simp_all
  also have "\<dots> \<le> binary64_nearest y"
    using y fl by (rule binary64_nearest_lower)
  finally show ?thesis .
qed

lemma binary64_mono_pos:
  assumes "0 < x" "x \<le> y"
  shows "fle (binary64 x) (binary64 y)"
proof -
  from assms have y: "0 < y" by simp
  from binary64_nearest_mono_pos [OF assms]
    binary64_nearest_nonneg [of x] binary64_nearest_nonneg [of y] assms y
  show ?thesis by (simp add: binary64_def Let_def)
qed

lemma binary64_sign:
  "0 \<le> x \<Longrightarrow> fle (Fin 0) (binary64 x)"
  using binary64_nearest_nonneg [of x] by (simp add: binary64_def Let_def)

lemma fle_fneg: "fle a b \<Longrightarrow> fle (fneg b) (fneg a)"
  by (cases a; cases b) auto

lemma fle_trans: "fle a b \<Longrightarrow> fle b c \<Longrightarrow> fle a c"
  by (cases a; cases b; cases c) auto

lemma binary64_mono:
  assumes "x \<le> y"
  shows "fle (binary64 x) (binary64 y)"
proof -
  consider (pos) "0 < x" | (neg) "y < 0" | (mixed) "x \<le> 0" "0 \<le> y" by linarith
  then show ?thesis
  proof cases
    case pos
    then show ?thesis using assms by (rule binary64_mono_pos)
  next
    case neg
    with assms have "0 < - y" "- y \<le> - x" by simp_all
    then have "fle (binary64 (- y)) (binary64 (- x))" by (rule binary64_mono_pos)
    then have "fle (fneg (binary64 (- x))) (fneg (binary64 (- y)))" by (rule fle_fneg)
    moreover have "fneg (binary64 (- z)) = binary64 z" for z
      by (cases "binary64 z") (simp_all add: binary64_minus)
    ultimately show ?thesis by simp
  next
    case mixed
    from mixed(1) have "fle (Fin 0) (binary64 (- x))" by (intro binary64_sign) simp
    then have "fle (fneg (binary64 (- x))) (fneg (Fin 0))" by (rule fle_fneg)
    moreover have "fneg (binary64 (- x)) = binary64 x"
      by (cases "binary64 x") (simp_all add: binary64_minus)
    ultimately have "fle (binary64 x) (Fin 0)" by simp
    moreover from mixed(2) have "fle (Fin 0) (binary64 y)" by (rule binary64_sign)
    ultimately show ?thesis by (rule fle_trans)
  qed
qed

lemma binary64_exponent_eq:
  assumes "0 < x" "2 powr real_of_int k \<le> x" "x < 2 powr (real_of_int k + 1)" "- 1022 \<le> k"
  shows "binary64_exponent x = k"
proof -
  from assms(1-3) have "\<lfloor>log 2 x\<rfloor> = k"
    by (simp add: floor_log_eq_powr_iff)
  with assms show ?thesis by (simp add: binary64_exponent_def)
qed

lemma binary64_example_below:
  "binary64 ((1 + 1 / 2 ^ 52) * (2 - 1 / 2 ^ 51)) = Fin 2"
proof -
  let ?x = "(1 + 1 / 2 ^ 52) * (2 - 1 / 2 ^ 51) :: real"
  have e: "binary64_exponent ?x = 0"
    by (rule binary64_exponent_eq) simp_all
  have u: "2 powr (real_of_int 0 - 52) = 1 / 2 ^ 52"
    by (simp add: powr_minus_divide)
  have "binary64_nearest ?x = 2"
    by (simp only: binary64_nearest_def Let_def e u)
       (simp add: round_half_even_def Let_def)
  then show ?thesis by (simp add: binary64_def Let_def)
qed

lemma binary64_example_above:
  "binary64 ((1 + 1 / 2 ^ 52) * (2 - 1 / 2 ^ 52)) = Fin 2"
proof -
  let ?x = "(1 + 1 / 2 ^ 52) * (2 - 1 / 2 ^ 52) :: real"
  have e: "binary64_exponent ?x = 1"
    by (rule binary64_exponent_eq) simp_all
  have u: "2 powr (real_of_int 1 - 52) = 1 / 2 ^ 51"
    by (simp add: powr_minus_divide)
  have "binary64_nearest ?x = 2"
    by (simp only: binary64_nearest_def Let_def e u)
       (simp add: round_half_even_def Let_def)
  then show ?thesis by (simp add: binary64_def Let_def)
qed

lemma binary64_numpy_fields:
  "lib_value (binary64_numpy cnf) x = x"
  "lib_mul (binary64_numpy cnf) = fmul64"
  by (simp_all add: binary64_numpy_def exact_numpy_def)

section \<open>The claims\<close>

text \<open>
  C1. Whatever the arithmetic: the search stops at the first multiplier, in the order in
  which \<open>np.arange\<close> returns them, whose \<open>cv_error\<close> is at most \<open>target_cv_error\<close>. The loop
  is then left by \<open>break\<close>, the loop variables are those of that candidate, the number of
  multipliers tried is its position, and \<open>optimize_scaling\<close> returns its scale factor and
  its integer series. When the first multiplier already meets the tolerance, exactly one
  multiplier has been tried. Conversely, a search that is left by \<open>break\<close> has stopped at
  such a first multiplier. The conditions of the claim on the series, the range and the
  tolerance are not needed.
\<close>

theorem early_exit_first_satisfying:
  assumes "lib_arange np min_scale max_scale step = Inr ms"
  shows "(\<forall>i<length ms.
       fle (candidate_error_with np original_data (calculate_cv_with np original_data)
              (base_scale_with np original_data target_mean) (ms ! i)) (Fin target_cv_error) \<and>
       (\<forall>j<i. \<not> fle (candidate_error_with np original_data (calculate_cv_with np original_data)
                       (base_scale_with np original_data target_mean) (ms ! j))
                    (Fin target_cv_error))
       \<longrightarrow>
       optimize_scaling_search_with np original_data target_mean target_cv_error
           min_scale max_scale step =
         Inr (accepted_with np original_data (calculate_cv_with np original_data)
                (base_scale_with np original_data target_mean) (ms ! i) (i + 1), True) \<and>
       optimize_scaling_with np original_data target_mean target_cv_error
           min_scale max_scale step verbose =
         Inr (lib_value np (scale_factor_with np (base_scale_with np original_data target_mean)
                              (ms ! i)),
              Some (rounded_data_with np original_data
                      (scale_factor_with np (base_scale_with np original_data target_mean)
                         (ms ! i))))) \<and>
    (ms \<noteq> [] \<and>
     fle (candidate_error_with np original_data (calculate_cv_with np original_data)
            (base_scale_with np original_data target_mean) (ms ! 0)) (Fin target_cv_error)
     \<longrightarrow>
     (\<exists>st. optimize_scaling_search_with np original_data target_mean target_cv_error
              min_scale max_scale step = Inr (st, True) \<and>
           scales_tried st = 1 \<and>
           best_data st =
             Some (rounded_data_with np original_data
                     (scale_factor_with np (base_scale_with np original_data target_mean)
                        (ms ! 0))))) \<and>
    (\<forall>st. optimize_scaling_search_with np original_data target_mean target_cv_error
             min_scale max_scale step = Inr (st, True) \<longrightarrow>
       0 < scales_tried st \<and> scales_tried st \<le> length ms \<and>
       st = accepted_with np original_data (calculate_cv_with np original_data)
              (base_scale_with np original_data target_mean) (ms ! (scales_tried st - 1))
              (scales_tried st) \<and>
       fle (candidate_error_with np original_data (calculate_cv_with np original_data)
              (base_scale_with np original_data target_mean) (ms ! (scales_tried st - 1)))
           (Fin target_cv_error) \<and>
       (\<forall>j<scales_tried st - 1.
          \<not> fle (candidate_error_with np original_data (calculate_cv_with np original_data)
                   (base_scale_with np original_data target_mean) (ms ! j))
                (Fin target_cv_error)))"
proof -
  let ?ocv = "calculate_cv_with np original_data"
  let ?bs = "base_scale_with np original_data target_mean"
  let ?E = "candidate_error_with np original_data ?ocv ?bs"
  let ?search = "optimize_scaling_search_with np original_data target_mean target_cv_error
        min_scale max_scale step"
  note search = search_with_Inr [OF assms, of original_data target_mean target_cv_error]
  have start: "fless (Fin target_cv_error) (best_error (initial_state (lib_value np ?bs)))"
    by (simp add: initial_state_def)
  have run: "?search = Inr (accepted_with np original_data ?ocv ?bs (ms ! i) (i + 1), True)"
    if "i < length ms" "fle (?E (ms ! i)) (Fin target_cv_error)"
      "\<forall>j<i. \<not> fle (?E (ms ! j)) (Fin target_cv_error)" for i
    using scan_first_meeting_with [OF that start]
    by (simp add: search initial_state_def)
  have ret: "optimize_scaling_with np original_data target_mean target_cv_error
        min_scale max_scale step verbose =
      Inr (lib_value np (scale_factor_with np ?bs (ms ! i)),
           Some (rounded_data_with np original_data (scale_factor_with np ?bs (ms ! i))))"
    if "i < length ms" "fle (?E (ms ! i)) (Fin target_cv_error)"
      "\<forall>j<i. \<not> fle (?E (ms ! j)) (Fin target_cv_error)" for i
    using run [OF that] by (simp add: optimize_scaling_with_def)
  have first: "\<exists>st. ?search = Inr (st, True) \<and> scales_tried st = 1 \<and>
      best_data st =
        Some (rounded_data_with np original_data (scale_factor_with np ?bs (ms ! 0)))"
    if "ms \<noteq> []" "fle (?E (ms ! 0)) (Fin target_cv_error)"
  proof -
    from that(1) have "0 < length ms" by simp
    from run [OF this that(2)] show ?thesis by simp
  qed
  have stop: "0 < scales_tried st \<and> scales_tried st \<le> length ms \<and>
       st = accepted_with np original_data ?ocv ?bs (ms ! (scales_tried st - 1))
              (scales_tried st) \<and>
       fle (?E (ms ! (scales_tried st - 1))) (Fin target_cv_error) \<and>
       (\<forall>j<scales_tried st - 1. \<not> fle (?E (ms ! j)) (Fin target_cv_error))"
    if "?search = Inr (st, True)" for st
  proof -
    from that have sc: "scan_with np original_data ?ocv ?bs target_cv_error ms
        (initial_state (lib_value np ?bs)) = (st, True)"
      by (simp add: search)
    from scan_summary_with(1) [OF sc] scan_summary_with(7) [OF sc] show ?thesis by simp
  qed
  show ?thesis
  proof (intro conjI allI impI)
    fix i
    assume "i < length ms" and h: "fle (?E (ms ! i)) (Fin target_cv_error) \<and>
       (\<forall>j<i. \<not> fle (?E (ms ! j)) (Fin target_cv_error))"
    then show "?search = Inr (accepted_with np original_data ?ocv ?bs (ms ! i) (i + 1), True)"
      using run by blast
    from \<open>i < length ms\<close> h show "optimize_scaling_with np original_data target_mean
        target_cv_error min_scale max_scale step verbose =
      Inr (lib_value np (scale_factor_with np ?bs (ms ! i)),
           Some (rounded_data_with np original_data (scale_factor_with np ?bs (ms ! i))))"
      using ret by blast
  next
    assume "ms \<noteq> [] \<and> fle (?E (ms ! 0)) (Fin target_cv_error)"
    then show "\<exists>st. ?search = Inr (st, True) \<and> scales_tried st = 1 \<and>
      best_data st =
        Some (rounded_data_with np original_data (scale_factor_with np ?bs (ms ! 0)))"
      using first by blast
  next
    fix st assume s: "?search = Inr (st, True)"
    from stop [OF s] show "0 < scales_tried st" and "scales_tried st \<le> length ms"
      and "st = accepted_with np original_data ?ocv ?bs (ms ! (scales_tried st - 1))
              (scales_tried st)"
      and "fle (?E (ms ! (scales_tried st - 1))) (Fin target_cv_error)"
      by blast+
    fix j assume "j < scales_tried st - 1"
    with stop [OF s] show "\<not> fle (?E (ms ! j)) (Fin target_cv_error)" by blast
  qed
qed

text \<open>
  The series \<open>[1, 3]\<close> with target mean 6 and the multipliers 1 and 3/2, where \<open>float64\<close>
  arithmetic is exact: the first multiplier gives the scale factor 3 and the integer series
  \<open>[3, 9]\<close>, whose coefficient of variation is that of the original series.
\<close>

theorem early_exit_first_satisfying_witness:
  "lib_arange (exact_numpy cast_x86_64) 1 2 (1 / 2) = Inr [Fin 1, Fin (3 / 2)] \<and>
   optimize_scaling_search_with (exact_numpy cast_x86_64) [1, 3] 6 (1 / 100) 1 2 (1 / 2) =
     Inr (\<lparr>best_error = Fin 0, best_scale = Fin 3, best_data = Some [3, 9],
           scales_tried = 1\<rparr>, True) \<and>
   optimize_scaling_with (exact_numpy cast_x86_64) [1, 3] 6 (1 / 100) 1 2 (1 / 2) True =
     Inr (Fin 3, Some [3, 9])"
proof -
  let ?np = "exact_numpy cast_x86_64"
  have ar: "lib_arange ?np 1 2 (1 / 2) = Inr [Fin 1, Fin (3 / 2)]"
    by (simp add: arange_def Let_def upt_rec)
  have E: "candidate_error_with ?np [1, 3] (calculate_cv_with ?np [1, 3])
      (base_scale_with ?np [1, 3] 6) (Fin 1) = Fin 0"
    by (simp add: exact_candidate_error exact_calculate_cv exact_base_scale eval_defs sqrt_9)
  have acc: "accepted_with ?np [1, 3] (calculate_cv_with ?np [1, 3])
      (base_scale_with ?np [1, 3] 6) (Fin 1) 1 =
    \<lparr>best_error = Fin 0, best_scale = Fin 3, best_data = Some [3, 9], scales_tried = 1\<rparr>"
    by (simp add: exact_accepted exact_calculate_cv exact_base_scale eval_defs sqrt_9)
  have sf: "scale_factor_with ?np (base_scale_with ?np [1, 3] 6) (Fin 1) = Fin 3"
    by (simp add: exact_scale_factor exact_base_scale eval_defs)
  have rd: "rounded_data_with ?np [1, 3] (Fin 3) = [3, 9]"
    by (simp add: exact_rounded_data eval_defs)
  from early_exit_first_satisfying [OF ar, of "[1, 3]" 6 "1 / 100" True]
  have "\<forall>i<length [Fin 1, Fin (3 / 2)].
       fle (candidate_error_with ?np [1, 3] (calculate_cv_with ?np [1, 3])
              (base_scale_with ?np [1, 3] 6) ([Fin 1, Fin (3 / 2)] ! i)) (Fin (1 / 100)) \<and>
       (\<forall>j<i. \<not> fle (candidate_error_with ?np [1, 3] (calculate_cv_with ?np [1, 3])
                       (base_scale_with ?np [1, 3] 6) ([Fin 1, Fin (3 / 2)] ! j))
                    (Fin (1 / 100)))
       \<longrightarrow>
       optimize_scaling_search_with ?np [1, 3] 6 (1 / 100) 1 2 (1 / 2) =
         Inr (accepted_with ?np [1, 3] (calculate_cv_with ?np [1, 3])
                (base_scale_with ?np [1, 3] 6) ([Fin 1, Fin (3 / 2)] ! i) (i + 1), True) \<and>
       optimize_scaling_with ?np [1, 3] 6 (1 / 100) 1 2 (1 / 2) True =
         Inr (lib_value ?np (scale_factor_with ?np (base_scale_with ?np [1, 3] 6)
                              ([Fin 1, Fin (3 / 2)] ! i)),
              Some (rounded_data_with ?np [1, 3]
                      (scale_factor_with ?np (base_scale_with ?np [1, 3] 6)
                         ([Fin 1, Fin (3 / 2)] ! i))))"
    by (rule conjunct1)
  then have "fle (candidate_error_with ?np [1, 3] (calculate_cv_with ?np [1, 3])
              (base_scale_with ?np [1, 3] 6) (Fin 1)) (Fin (1 / 100)) \<longrightarrow>
       optimize_scaling_search_with ?np [1, 3] 6 (1 / 100) 1 2 (1 / 2) =
         Inr (accepted_with ?np [1, 3] (calculate_cv_with ?np [1, 3])
                (base_scale_with ?np [1, 3] 6) (Fin 1) 1, True) \<and>
       optimize_scaling_with ?np [1, 3] 6 (1 / 100) 1 2 (1 / 2) True =
         Inr (lib_value ?np (scale_factor_with ?np (base_scale_with ?np [1, 3] 6) (Fin 1)),
              Some (rounded_data_with ?np [1, 3]
                      (scale_factor_with ?np (base_scale_with ?np [1, 3] 6) (Fin 1))))"
    by (elim allE [of _ 0]) simp
  then have "optimize_scaling_search_with ?np [1, 3] 6 (1 / 100) 1 2 (1 / 2) =
         Inr (\<lparr>best_error = Fin 0, best_scale = Fin 3, best_data = Some [3, 9],
           scales_tried = 1\<rparr>, True) \<and>
       optimize_scaling_with ?np [1, 3] 6 (1 / 100) 1 2 (1 / 2) True = Inr (Fin 3, Some [3, 9])"
    by (simp only: E acc sf rd) simp
  with ar show ?thesis by (rule conjI)
qed

text \<open>
  C2, as stated, fails. The series \<open>[1, 3]\<close> with target mean 6 and the single multiplier
  1/32 is a valid input, on which \<open>float64\<close> arithmetic is exact; the scaled series
  \<open>[3/32, 9/32]\<close> rounds to \<open>[0, 0]\<close>, whose coefficient of variation is 0/0, so the
  \<open>cv_error\<close> of the one candidate examined is \<open>nan\<close>. The comparison \<open>nan < inf\<close> is false:
  no candidate is tracked, \<open>best_data\<close> stays \<open>None\<close>, and \<open>best_error\<close> (still \<open>+inf\<close>) is
  not at most the error of the candidate examined.
\<close>

theorem best_candidate_minimal_counterexample:
  "optimize_scaling_search_with (exact_numpy cast_x86_64) [1, 3] 6 (1 / 100)
       (1 / 32) (1 / 16) (1 / 32) =
     Inr (\<lparr>best_error = PInf, best_scale = Fin 3, best_data = None, scales_tried = 1\<rparr>, False) \<and>
   lib_arange (exact_numpy cast_x86_64) (1 / 32) (1 / 16) (1 / 32) = Inr [Fin (1 / 32)] \<and>
   rounded_data_with (exact_numpy cast_x86_64) [1, 3] (Fin (3 / 32)) = [0, 0] \<and>
   candidate_error_with (exact_numpy cast_x86_64) [1, 3]
       (calculate_cv_with (exact_numpy cast_x86_64) [1, 3])
       (base_scale_with (exact_numpy cast_x86_64) [1, 3] 6) (Fin (1 / 32)) = NaN \<and>
   \<not> fle PInf (candidate_error_with (exact_numpy cast_x86_64) [1, 3]
       (calculate_cv_with (exact_numpy cast_x86_64) [1, 3])
       (base_scale_with (exact_numpy cast_x86_64) [1, 3] 6) (Fin (1 / 32)))"
proof -
  let ?np = "exact_numpy cast_x86_64"
  have ar: "lib_arange ?np (1 / 32) (1 / 16) (1 / 32) = Inr [Fin (1 / 32)]"
    by (simp add: arange_def Let_def)
  have E: "candidate_error_with ?np [1, 3] (calculate_cv_with ?np [1, 3])
      (base_scale_with ?np [1, 3] 6) (Fin (1 / 32)) = NaN"
    by (simp add: exact_candidate_error exact_calculate_cv exact_base_scale eval_defs)
  have bs: "lib_value ?np (base_scale_with ?np [1, 3] 6) = Fin 3"
    by (simp add: exact_base_scale eval_defs)
  have rd: "rounded_data_with ?np [1, 3] (Fin (3 / 32)) = [0, 0]"
    by (simp add: exact_rounded_data eval_defs)
  have "optimize_scaling_search_with ?np [1, 3] 6 (1 / 100) (1 / 32) (1 / 16) (1 / 32) =
     Inr (\<lparr>best_error = PInf, best_scale = Fin 3, best_data = None, scales_tried = 1\<rparr>, False)"
    by (simp only: search_with_Inr [OF ar] scan_Cons_with E bs)
       (simp add: initial_state_def)
  with ar rd E show ?thesis by simp
qed

text \<open>
  C2, amended. Whatever the arithmetic, take the loop variables after the scan of the
  first \<open>n\<close> multipliers of the progression, for any \<open>n\<close>: any point of the scan, and the end
  of the search when \<open>n\<close> covers the progression. No examined candidate has a \<open>cv_error\<close>
  strictly below \<open>best_error\<close>, so \<open>best_error\<close> is at most the \<open>cv_error\<close> of every examined
  candidate whose error is not \<open>nan\<close>. If a candidate is tracked, it is an examined one, the
  loop variables are those of that candidate, its error is below \<open>+inf\<close>, and every
  candidate examined before it has a strictly greater error or \<open>nan\<close> (the first of equal
  errors is kept). If none is tracked, every examined candidate has the error \<open>+inf\<close> or
  \<open>nan\<close>, \<open>best_error\<close> is \<open>+inf\<close> and \<open>best_scale\<close> is the base scale. The loop is left by
  \<open>break\<close> exactly when one of the \<open>n\<close> multipliers meets the tolerance, at the first such
  one; otherwise all \<open>n\<close> multipliers are examined.
\<close>

theorem best_candidate_minimal:
  assumes "lib_arange np min_scale max_scale step = Inr ms"
    and "scan_with np original_data (calculate_cv_with np original_data)
           (base_scale_with np original_data target_mean) target_cv_error (take n ms)
           (initial_state (lib_value np (base_scale_with np original_data target_mean))) =
         (st, stopped)"
  shows "scales_tried st \<le> n \<and> scales_tried st \<le> length ms \<and>
    (\<forall>j<scales_tried st.
       \<not> fless (candidate_error_with np original_data (calculate_cv_with np original_data)
                  (base_scale_with np original_data target_mean) (ms ! j)) (best_error st)) \<and>
    (\<forall>j<scales_tried st.
       \<not> is_nan (candidate_error_with np original_data (calculate_cv_with np original_data)
                   (base_scale_with np original_data target_mean) (ms ! j)) \<longrightarrow>
       fle (best_error st)
           (candidate_error_with np original_data (calculate_cv_with np original_data)
              (base_scale_with np original_data target_mean) (ms ! j))) \<and>
    (\<forall>x. best_data st = Some x \<longrightarrow>
       (\<exists>i<scales_tried st.
          st = accepted_with np original_data (calculate_cv_with np original_data)
                 (base_scale_with np original_data target_mean) (ms ! i) (scales_tried st) \<and>
          fless (candidate_error_with np original_data (calculate_cv_with np original_data)
                   (base_scale_with np original_data target_mean) (ms ! i)) PInf \<and>
          (\<forall>j<i. \<not> fle (candidate_error_with np original_data
                          (calculate_cv_with np original_data)
                          (base_scale_with np original_data target_mean) (ms ! j))
                       (candidate_error_with np original_data
                          (calculate_cv_with np original_data)
                          (base_scale_with np original_data target_mean) (ms ! i))))) \<and>
    (best_data st = None \<longrightarrow>
       best_error st = PInf \<and>
       best_scale st = lib_value np (base_scale_with np original_data target_mean) \<and>
       (\<forall>j<scales_tried st.
          candidate_error_with np original_data (calculate_cv_with np original_data)
            (base_scale_with np original_data target_mean) (ms ! j) = PInf \<or>
          candidate_error_with np original_data (calculate_cv_with np original_data)
            (base_scale_with np original_data target_mean) (ms ! j) = NaN)) \<and>
    (stopped \<longleftrightarrow>
       (\<exists>j<min n (length ms).
          fle (candidate_error_with np original_data (calculate_cv_with np original_data)
                 (base_scale_with np original_data target_mean) (ms ! j))
              (Fin target_cv_error))) \<and>
    (\<not> stopped \<longrightarrow> scales_tried st = min n (length ms)) \<and>
    (stopped \<longrightarrow>
       0 < scales_tried st \<and>
       fle (candidate_error_with np original_data (calculate_cv_with np original_data)
              (base_scale_with np original_data target_mean) (ms ! (scales_tried st - 1)))
           (Fin target_cv_error) \<and>
       (\<forall>j<scales_tried st - 1.
          \<not> fle (candidate_error_with np original_data (calculate_cv_with np original_data)
                   (base_scale_with np original_data target_mean) (ms ! j))
                (Fin target_cv_error))) \<and>
    (length ms \<le> n \<longrightarrow>
       optimize_scaling_search_with np original_data target_mean target_cv_error
         min_scale max_scale step = Inr (st, stopped))"
proof -
  let ?ocv = "calculate_cv_with np original_data"
  let ?bs = "base_scale_with np original_data target_mean"
  let ?E = "candidate_error_with np original_data ?ocv ?bs"
  let ?k = "scales_tried st"
  note s = scan_summary_with [OF assms(2)]
  from s(1) have k1: "?k \<le> n" and k2: "?k \<le> length ms" by simp_all
  have len: "length (take n ms) = min n (length ms)" by (simp add: min.commute)
  have nth: "take n ms ! j = ms ! j" if "j < ?k" for j
    using that k1 by simp
  have nth': "take n ms ! j = ms ! j" if "j < min n (length ms)" for j
    using that by simp
  have a: "\<forall>j<?k. \<not> fless (?E (ms ! j)) (best_error st)"
  proof (intro allI impI)
    fix j assume j: "j < ?k"
    with s(2) have "\<not> fless (?E (take n ms ! j)) (best_error st)" by blast
    with j show "\<not> fless (?E (ms ! j)) (best_error st)" by (simp add: nth)
  qed
  have b: "\<forall>j<?k. \<not> is_nan (?E (ms ! j)) \<longrightarrow> fle (best_error st) (?E (ms ! j))"
  proof (intro allI impI)
    fix j assume j: "j < ?k" and "\<not> is_nan (?E (ms ! j))"
    then have "\<not> is_nan (?E (take n ms ! j))" by (simp add: nth)
    with s(3) j have "fle (best_error st) (?E (take n ms ! j))" by blast
    with j show "fle (best_error st) (?E (ms ! j))" by (simp add: nth)
  qed
  have c: "\<forall>x. best_data st = Some x \<longrightarrow>
       (\<exists>i<?k. st = accepted_with np original_data ?ocv ?bs (ms ! i) ?k \<and>
          fless (?E (ms ! i)) PInf \<and>
          (\<forall>j<i. \<not> fle (?E (ms ! j)) (?E (ms ! i))))"
  proof (intro allI impI)
    fix x assume "best_data st = Some x"
    with s(4) obtain i where i: "i < ?k"
      and st: "st = accepted_with np original_data ?ocv ?bs (take n ms ! i) ?k"
      and below: "fless (?E (take n ms ! i)) PInf"
      and first: "\<forall>j<i. \<not> fle (?E (take n ms ! j)) (?E (take n ms ! i))"
      by blast
    from i st have "st = accepted_with np original_data ?ocv ?bs (ms ! i) ?k"
      by (simp add: nth)
    moreover from i below have "fless (?E (ms ! i)) PInf" by (simp add: nth)
    moreover from i first k1 have "\<forall>j<i. \<not> fle (?E (ms ! j)) (?E (ms ! i))"
      by simp
    ultimately show "\<exists>i<?k. st = accepted_with np original_data ?ocv ?bs (ms ! i) ?k \<and>
          fless (?E (ms ! i)) PInf \<and>
          (\<forall>j<i. \<not> fle (?E (ms ! j)) (?E (ms ! i)))"
      using i by blast
  qed
  have d: "best_data st = None \<longrightarrow>
       best_error st = PInf \<and> best_scale st = lib_value np ?bs \<and>
       (\<forall>j<?k. ?E (ms ! j) = PInf \<or> ?E (ms ! j) = NaN)"
  proof
    assume "best_data st = None"
    with s(5) have p: "best_error st = PInf" and q: "best_scale st = lib_value np ?bs"
      and r: "\<forall>j<?k. ?E (take n ms ! j) = PInf \<or> ?E (take n ms ! j) = NaN"
      by blast+
    have "\<forall>j<?k. ?E (ms ! j) = PInf \<or> ?E (ms ! j) = NaN"
    proof (intro allI impI)
      fix j assume j: "j < ?k"
      with r have "?E (take n ms ! j) = PInf \<or> ?E (take n ms ! j) = NaN" by blast
      with j show "?E (ms ! j) = PInf \<or> ?E (ms ! j) = NaN" by (simp add: nth)
    qed
    with p q show "best_error st = PInf \<and> best_scale st = lib_value np ?bs \<and>
       (\<forall>j<?k. ?E (ms ! j) = PInf \<or> ?E (ms ! j) = NaN)" by blast
  qed
  have g: "0 < ?k \<and> fle (?E (ms ! (?k - 1))) (Fin target_cv_error) \<and>
       (\<forall>j<?k - 1. \<not> fle (?E (ms ! j)) (Fin target_cv_error))" if "stopped"
  proof -
    from s(7) that have pos: "0 < ?k"
      and meets: "fle (?E (take n ms ! (?k - 1))) (Fin target_cv_error)"
      and before: "\<forall>j<?k - 1. \<not> fle (?E (take n ms ! j)) (Fin target_cv_error)"
      by blast+
    from pos have "?k - 1 < ?k" by simp
    with meets have m: "fle (?E (ms ! (?k - 1))) (Fin target_cv_error)" by (simp add: nth)
    have "\<forall>j<?k - 1. \<not> fle (?E (ms ! j)) (Fin target_cv_error)"
    proof (intro allI impI)
      fix j assume j: "j < ?k - 1"
      with before have "\<not> fle (?E (take n ms ! j)) (Fin target_cv_error)" by blast
      moreover from j have "j < ?k" by simp
      ultimately show "\<not> fle (?E (ms ! j)) (Fin target_cv_error)" by (simp add: nth)
    qed
    with pos m show ?thesis by blast
  qed
  have e: "scales_tried st = min n (length ms) \<and>
      (\<forall>j<min n (length ms). \<not> fle (?E (ms ! j)) (Fin target_cv_error))" if "\<not> stopped"
  proof -
    from s(6) that have l: "?k = length (take n ms)"
      and all: "\<forall>j<length (take n ms). \<not> fle (?E (take n ms ! j)) (Fin target_cv_error)"
      by blast+
    have "\<forall>j<min n (length ms). \<not> fle (?E (ms ! j)) (Fin target_cv_error)"
    proof (intro allI impI)
      fix j assume j: "j < min n (length ms)"
      with all len have "\<not> fle (?E (take n ms ! j)) (Fin target_cv_error)" by simp
      with j show "\<not> fle (?E (ms ! j)) (Fin target_cv_error)" by (simp add: nth')
    qed
    with l len show ?thesis by simp
  qed
  have f: "stopped \<longleftrightarrow> (\<exists>j<min n (length ms). fle (?E (ms ! j)) (Fin target_cv_error))"
  proof
    assume st: "stopped"
    from g [OF st] have "0 < ?k" and "fle (?E (ms ! (?k - 1))) (Fin target_cv_error)"
      by blast+
    moreover from \<open>0 < ?k\<close> k1 k2 have "?k - 1 < min n (length ms)" by linarith
    ultimately show "\<exists>j<min n (length ms). fle (?E (ms ! j)) (Fin target_cv_error)"
      by blast
  next
    assume "\<exists>j<min n (length ms). fle (?E (ms ! j)) (Fin target_cv_error)"
    with e show "stopped" by blast
  qed
  have h: "\<not> stopped \<longrightarrow> scales_tried st = min n (length ms)"
    using e by blast
  have i: "length ms \<le> n \<longrightarrow>
       optimize_scaling_search_with np original_data target_mean target_cv_error
         min_scale max_scale step = Inr (st, stopped)"
  proof
    assume "length ms \<le> n"
    then have "take n ms = ms" by simp
    with assms show "optimize_scaling_search_with np original_data target_mean
        target_cv_error min_scale max_scale step = Inr (st, stopped)"
      by (simp add: search_with_Inr)
  qed
  have g': "stopped \<longrightarrow> 0 < ?k \<and> fle (?E (ms ! (?k - 1))) (Fin target_cv_error) \<and>
       (\<forall>j<?k - 1. \<not> fle (?E (ms ! j)) (Fin target_cv_error))"
    using g by blast
  from k1 k2 a b c d f h g' i show ?thesis by (intro conjI)
qed

text \<open>
  The series \<open>[1, 3]\<close> with target mean 1 and the multipliers 1/2 and 1, where \<open>float64\<close>
  arithmetic is exact: the integer series are \<open>[0, 1]\<close> and \<open>[0, 2]\<close>, both with the error 1;
  neither meets the tolerance 1/100 and the first is kept.
\<close>

theorem best_candidate_minimal_witness:
  "lib_arange (exact_numpy cast_x86_64) (1 / 2) (3 / 2) (1 / 2) = Inr [Fin (1 / 2), Fin 1] \<and>
   scan_with (exact_numpy cast_x86_64) [1, 3]
       (calculate_cv_with (exact_numpy cast_x86_64) [1, 3])
       (base_scale_with (exact_numpy cast_x86_64) [1, 3] 1) (1 / 100)
       (take 2 [Fin (1 / 2), Fin 1])
       (initial_state (lib_value (exact_numpy cast_x86_64)
          (base_scale_with (exact_numpy cast_x86_64) [1, 3] 1))) =
     (\<lparr>best_error = Fin 1, best_scale = Fin (1 / 4), best_data = Some [0, 1],
       scales_tried = 2\<rparr>, False) \<and>
   optimize_scaling_search_with (exact_numpy cast_x86_64) [1, 3] 1 (1 / 100)
       (1 / 2) (3 / 2) (1 / 2) =
     Inr (\<lparr>best_error = Fin 1, best_scale = Fin (1 / 4), best_data = Some [0, 1],
           scales_tried = 2\<rparr>, False) \<and>
   \<not> fle (candidate_error_with (exact_numpy cast_x86_64) [1, 3]
            (calculate_cv_with (exact_numpy cast_x86_64) [1, 3])
            (base_scale_with (exact_numpy cast_x86_64) [1, 3] 1) ([Fin (1 / 2), Fin 1] ! 1))
          (Fin (1 / 100))"
proof -
  let ?np = "exact_numpy cast_x86_64"
  let ?S = "\<lparr>best_error = Fin 1, best_scale = Fin (1 / 4), best_data = Some [0, 1],
       scales_tried = 2\<rparr>"
  have ar: "lib_arange ?np (1 / 2) (3 / 2) (1 / 2) = Inr [Fin (1 / 2), Fin 1]"
    by (simp add: arange_def Let_def upt_rec)
  have E1: "candidate_error cast_x86_64 [1, 3] (calculate_cv [1, 3]) (base_scale_of [1, 3] 1)
      (1 / 2) = Fin 1"
    by (simp add: eval_defs power2_eq_square sqrt_quarter)
  have E2: "candidate_error cast_x86_64 [1, 3] (calculate_cv [1, 3]) (base_scale_of [1, 3] 1)
      1 = Fin 1"
    by (simp add: eval_defs)
  have "scan cast_x86_64 [1, 3] (calculate_cv [1, 3]) (base_scale_of [1, 3] 1) (1 / 100)
      [1 / 2, 1] (initial_state (base_scale_of [1, 3] 1)) = (?S, False)"
    by (simp only: scan_Cons E1 E2) (simp add: initial_state_def eval_defs)
  then have run: "scan_with ?np [1, 3] (calculate_cv_with ?np [1, 3])
       (base_scale_with ?np [1, 3] 1) (1 / 100) (take 2 [Fin (1 / 2), Fin 1])
       (initial_state (lib_value ?np (base_scale_with ?np [1, 3] 1))) = (?S, False)"
    using exact_scan [of cast_x86_64 "[1, 3]" "calculate_cv [1, 3]" "base_scale_of [1, 3] 1"
        "1 / 100" "[1 / 2, 1]" "initial_state (base_scale_of [1, 3] 1)"]
    by (simp add: exact_calculate_cv exact_base_scale)
  note summary = best_candidate_minimal [OF ar run]
  from summary have "length [Fin (1 / 2), Fin 1] \<le> 2 \<longrightarrow>
      optimize_scaling_search_with ?np [1, 3] 1 (1 / 100) (1 / 2) (3 / 2) (1 / 2) =
        Inr (?S, False)"
    by blast
  then have search: "optimize_scaling_search_with ?np [1, 3] 1 (1 / 100)
      (1 / 2) (3 / 2) (1 / 2) = Inr (?S, False)"
    by simp
  from summary have "False \<longleftrightarrow>
      (\<exists>j<min 2 (length [Fin (1 / 2), Fin 1]).
         fle (candidate_error_with ?np [1, 3] (calculate_cv_with ?np [1, 3])
                (base_scale_with ?np [1, 3] 1) ([Fin (1 / 2), Fin 1] ! j)) (Fin (1 / 100)))"
    by blast
  then have "\<forall>j<2. \<not> fle (candidate_error_with ?np [1, 3] (calculate_cv_with ?np [1, 3])
      (base_scale_with ?np [1, 3] 1) ([Fin (1 / 2), Fin 1] ! j)) (Fin (1 / 100))"
    by simp
  then have "\<not> fle (candidate_error_with ?np [1, 3] (calculate_cv_with ?np [1, 3])
      (base_scale_with ?np [1, 3] 1) ([Fin (1 / 2), Fin 1] ! 1)) (Fin (1 / 100))"
    by (elim allE [of _ 1]) simp
  with ar run search show ?thesis by (intro conjI)
qed

text \<open>
  C3, as stated, fails: the function has no check of the range. With \<open>min_scale = 2\<close>,
  \<open>max_scale = 1\<close> and \<open>step = -1/2\<close> (so \<open>max_scale \<le> min_scale\<close> and \<open>step \<le> 0\<close>),
  \<open>np.arange\<close> gives the multipliers 2 and 3/2, the first one is accepted and the call
  returns a scale and a series.
\<close>

theorem invalid_range_counterexample:
  "(1::real) \<le> 2 \<and> (- (1 / 2) :: real) \<le> 0 \<and>
   optimize_scaling cast_x86_64 [1, 3] 6 (1 / 100) 2 1 (- (1 / 2)) True = Inr (Fin 6, Some [6, 18])"
proof -
  have ar: "arange 2 1 (- (1 / 2)) = Inr [2, 3 / 2]"
    by (simp add: arange_def Let_def upt_rec)
  have E: "candidate_error cast_x86_64 [1, 3] (calculate_cv [1, 3]) (base_scale_of [1, 3] 6) 2 = Fin 0"
    by (simp add: eval_defs sqrt_36)
  have "optimize_scaling_search cast_x86_64 [1, 3] 6 (1 / 100) 2 1 (- (1 / 2)) =
      Inr (accepted cast_x86_64 [1, 3] (calculate_cv [1, 3]) (base_scale_of [1, 3] 6) 2 1, True)"
    by (simp only: search_Inr [OF ar] scan_Cons E) (simp add: initial_state_def)
  then show ?thesis
    by (simp add: optimize_scaling_def) (simp add: eval_defs)
qed

text \<open>
  C3, amended. A zero step makes \<open>np.arange\<close> raise \<open>ZeroDivisionError\<close>, which reaches the
  caller. Every other range is accepted and the search of lines 36 to 80 ends without an
  error. For a positive step and \<open>max_scale \<le> min_scale\<close> the progression is empty: no
  multiplier is tried, the loop variables keep their initial values, and with \<open>verbose\<close>
  off the call returns the base scale and \<open>None\<close>.
\<close>

theorem range_not_validated:
  "(step = 0 \<longrightarrow>
      optimize_scaling cnf original_data target_mean target_cv_error min_scale max_scale step
        verbose = Inl ZeroDivisionError) \<and>
   (step \<noteq> 0 \<longrightarrow>
      (\<exists>r. optimize_scaling_search cnf original_data target_mean target_cv_error
              min_scale max_scale step = Inr r)) \<and>
   (0 < step \<and> max_scale \<le> min_scale \<longrightarrow>
      optimize_scaling_search cnf original_data target_mean target_cv_error
          min_scale max_scale step =
        Inr (initial_state (base_scale_of original_data target_mean), False) \<and>
      optimize_scaling cnf original_data target_mean target_cv_error min_scale max_scale step
          False =
        Inr (base_scale_of original_data target_mean, None))"
proof (intro conjI impI)
  assume "step = 0"
  then have "arange min_scale max_scale step = Inl ZeroDivisionError"
    by (simp add: arange_def)
  then show "optimize_scaling cnf original_data target_mean target_cv_error min_scale max_scale
      step verbose = Inl ZeroDivisionError"
    by (simp add: optimize_scaling_def search_Inl)
next
  assume "step \<noteq> 0"
  then have "\<exists>ms. arange min_scale max_scale step = Inr ms"
    by (simp add: arange_def Let_def)
  then obtain ms where "arange min_scale max_scale step = Inr ms" ..
  then show "\<exists>r. optimize_scaling_search cnf original_data target_mean target_cv_error
              min_scale max_scale step = Inr r"
    by (simp add: search_Inr)
next
  assume "0 < step \<and> max_scale \<le> min_scale"
  then have ar: "arange min_scale max_scale step = Inr []" by (simp add: arange_empty)
  show s: "optimize_scaling_search cnf original_data target_mean target_cv_error
          min_scale max_scale step =
        Inr (initial_state (base_scale_of original_data target_mean), False)"
    by (simp add: search_Inr [OF ar])
  show "optimize_scaling cnf original_data target_mean target_cv_error min_scale max_scale step
          False =
        Inr (base_scale_of original_data target_mean, None)"
    by (simp add: optimize_scaling_def s initial_state_def)
qed

text \<open>A zero step, a negative step, and an empty progression, on the series \<open>[1, 3]\<close>.\<close>

theorem range_not_validated_witness:
  "optimize_scaling cast_x86_64 [1, 3] 6 (1 / 100) 1 2 0 True = Inl ZeroDivisionError \<and>
   (\<exists>r. optimize_scaling_search cast_x86_64 [1, 3] 6 (1 / 100) 2 1 (- 1) = Inr r) \<and>
   optimize_scaling_search cast_x86_64 [1, 3] 6 (1 / 100) 2 1 1 =
     Inr (\<lparr>best_error = PInf, best_scale = Fin 3, best_data = None, scales_tried = 0\<rparr>, False) \<and>
   optimize_scaling cast_x86_64 [1, 3] 6 (1 / 100) 2 1 1 False = Inr (Fin 3, None)"
proof -
  have bs: "base_scale_of [1, 3] 6 = Fin 3" by (simp add: eval_defs)
  from range_not_validated [of 0 cast_x86_64 "[1, 3]" 6 "1 / 100" 1 2 True]
  have 1: "optimize_scaling cast_x86_64 [1, 3] 6 (1 / 100) 1 2 0 True = Inl ZeroDivisionError"
    by simp
  from range_not_validated [of "- 1" cast_x86_64 "[1, 3]" 6 "1 / 100" 2 1 True]
  have 2: "\<exists>r. optimize_scaling_search cast_x86_64 [1, 3] 6 (1 / 100) 2 1 (- 1) = Inr r"
    by simp
  from range_not_validated [of 1 cast_x86_64 "[1, 3]" 6 "1 / 100" 2 1 True]
  have 3: "optimize_scaling_search cast_x86_64 [1, 3] 6 (1 / 100) 2 1 1 =
     Inr (\<lparr>best_error = PInf, best_scale = Fin 3, best_data = None, scales_tried = 0\<rparr>, False) \<and>
   optimize_scaling cast_x86_64 [1, 3] 6 (1 / 100) 2 1 1 False = Inr (Fin 3, None)"
    by (simp add: bs initial_state_def)
  from 1 2 3 show ?thesis by blast
qed

text \<open>
  C4, as stated, fails: nothing is raised. On the following inputs \<open>float64\<close> arithmetic is
  exact. The series \<open>[-1, 1]\<close> has mean 0: \<open>calculate_cv\<close> returns \<open>+inf\<close> and the call returns
  the base scale \<open>+inf\<close> and \<open>None\<close>. The series \<open>[4, 4]\<close> has the coefficient of variation
  0: every \<open>cv_error\<close> is 0/0 and the call returns the base scale 3/2 and \<open>None\<close>.
\<close>

theorem zero_mean_counterexample:
  "lib_value (exact_numpy cast_x86_64) (lib_mean (exact_numpy cast_x86_64) [- 1, 1]) = Fin 0 \<and>
   lib_value (exact_numpy cast_x86_64) (calculate_cv_with (exact_numpy cast_x86_64) [- 1, 1]) =
     PInf \<and>
   optimize_scaling_with (exact_numpy cast_x86_64) [- 1, 1] 6 (1 / 100) 1 2 (1 / 2) False =
     Inr (PInf, None) \<and>
   lib_value (exact_numpy cast_x86_64) (calculate_cv_with (exact_numpy cast_x86_64) [4, 4]) =
     Fin 0 \<and>
   optimize_scaling_with (exact_numpy cast_x86_64) [4, 4] 6 (1 / 100) 1 2 (1 / 2) False =
     Inr (Fin (3 / 2), None)"
proof -
  let ?np = "exact_numpy cast_x86_64"
  have ar: "arange 1 2 (1 / 2) = Inr [1, 3 / 2]"
    by (simp add: arange_def Let_def upt_rec)
  have m: "np_mean [- 1, 1] = Fin 0" by (simp add: np_mean_def)
  have cv1: "calculate_cv [- 1, 1] = PInf"
    by (simp add: calculate_cv_def np_std_def np_mean_def)
  have cv2: "calculate_cv [4, 4] = Fin 0"
    by (simp add: calculate_cv_def np_std_def np_mean_def)
  have bs1: "base_scale_of [- 1, 1] 6 = PInf" by (simp add: base_scale_of_def np_mean_def)
  have bs2: "base_scale_of [4, 4] 6 = Fin (3 / 2)" by (simp add: base_scale_of_def np_mean_def)
  have none: "optimize_scaling cast_x86_64 d 6 (1 / 100) 1 2 (1 / 2) False =
      Inr (base_scale_of d 6, None)"
    if "calculate_cv d = Fin 0 \<or> calculate_cv d = PInf \<or> calculate_cv d = NaN" for d
  proof -
    from that have "\<not> fless (candidate_error cast_x86_64 d (calculate_cv d)
        (base_scale_of d 6) m) PInf" for m
      unfolding candidate_error_def by (rule cv_error_undefined)
    then have "\<forall>m\<in>set [1, 3 / 2]. \<not> fless (candidate_error cast_x86_64 d (calculate_cv d)
        (base_scale_of d 6) m) (best_error (initial_state (base_scale_of d 6)))"
      by (simp add: initial_state_def)
    from scan_none_accepted [OF this] show ?thesis
      by (simp add: optimize_scaling_def search_Inr [OF ar] initial_state_def)
  qed
  from none [of "[- 1, 1]"] cv1 bs1
  have r1: "optimize_scaling_with ?np [- 1, 1] 6 (1 / 100) 1 2 (1 / 2) False = Inr (PInf, None)"
    by (simp add: exact_call_Inr)
  from none [of "[4, 4]"] cv2 bs2
  have r2: "optimize_scaling_with ?np [4, 4] 6 (1 / 100) 1 2 (1 / 2) False =
      Inr (Fin (3 / 2), None)"
    by (simp add: exact_call_Inr)
  from m cv1 cv2 r1 r2 show ?thesis by (simp add: exact_calculate_cv)
qed

text \<open>
  C4, amended. Whatever the arithmetic and whatever the series, with mean 0 or not: the
  function signals no zero mean and no zero coefficient of variation. \<open>calculate_cv\<close> has
  no error of its own, and the search raises exactly what \<open>np.arange\<close> raises. When
  \<open>np.arange\<close> returns a progression the search ends normally, and with \<open>verbose\<close> off the
  call returns the \<open>best_scale\<close> and the \<open>best_data\<close> of the loop variables. Where a division
  by a zero gives an infinity or \<open>nan\<close>, as in IEEE arithmetic: for a series whose computed mean
  is 0, \<open>calculate_cv\<close> returns an infinity or \<open>nan\<close>; and when the computed coefficient of
  variation of the series is 0, the \<open>cv_error\<close> of every candidate is an infinity or \<open>nan\<close>.
\<close>

theorem zero_mean_not_signalled:
  "(\<forall>e. lib_arange np min_scale max_scale step = Inl e \<longrightarrow>
      optimize_scaling_search_with np original_data target_mean target_cv_error
        min_scale max_scale step = Inl (ArangeRaised e) \<and>
      optimize_scaling_with np original_data target_mean target_cv_error
        min_scale max_scale step verbose = Inl (ArangeRaised e)) \<and>
   (\<forall>ms. lib_arange np min_scale max_scale step = Inr ms \<longrightarrow>
      (\<exists>st stopped.
         optimize_scaling_search_with np original_data target_mean target_cv_error
           min_scale max_scale step = Inr (st, stopped) \<and>
         optimize_scaling_with np original_data target_mean target_cv_error
           min_scale max_scale step False = Inr (best_scale st, best_data st))) \<and>
   ((\<forall>x y. lib_value np y = Fin 0 \<longrightarrow>
        lib_value np (lib_div np x y) = PInf \<or> lib_value np (lib_div np x y) = NInf \<or>
        lib_value np (lib_div np x y) = NaN) \<longrightarrow>
    (lib_value np (lib_mean np original_data) = Fin 0 \<longrightarrow>
       lib_value np (calculate_cv_with np original_data) = PInf \<or>
       lib_value np (calculate_cv_with np original_data) = NInf \<or>
       lib_value np (calculate_cv_with np original_data) = NaN) \<and>
    (lib_value np (calculate_cv_with np original_data) = Fin 0 \<longrightarrow>
       (\<forall>m. candidate_error_with np original_data (calculate_cv_with np original_data)
               (base_scale_with np original_data target_mean) m = PInf \<or>
            candidate_error_with np original_data (calculate_cv_with np original_data)
               (base_scale_with np original_data target_mean) m = NInf \<or>
            candidate_error_with np original_data (calculate_cv_with np original_data)
               (base_scale_with np original_data target_mean) m = NaN)))"
proof (intro conjI allI impI)
  fix e assume a: "lib_arange np min_scale max_scale step = Inl e"
  then show s: "optimize_scaling_search_with np original_data target_mean target_cv_error
        min_scale max_scale step = Inl (ArangeRaised e)"
    by (rule search_with_Inl)
  then show "optimize_scaling_with np original_data target_mean target_cv_error
        min_scale max_scale step verbose = Inl (ArangeRaised e)"
    by (simp add: optimize_scaling_with_def)
next
  fix ms assume a: "lib_arange np min_scale max_scale step = Inr ms"
  obtain st stopped where r: "scan_with np original_data (calculate_cv_with np original_data)
      (base_scale_with np original_data target_mean) target_cv_error ms
      (initial_state (lib_value np (base_scale_with np original_data target_mean))) =
      (st, stopped)"
    by (cases "scan_with np original_data (calculate_cv_with np original_data)
      (base_scale_with np original_data target_mean) target_cv_error ms
      (initial_state (lib_value np (base_scale_with np original_data target_mean)))")
  have s: "optimize_scaling_search_with np original_data target_mean target_cv_error
           min_scale max_scale step = Inr (st, stopped)"
    by (simp add: search_with_Inr [OF a] r)
  then have "optimize_scaling_with np original_data target_mean target_cv_error
           min_scale max_scale step False = Inr (best_scale st, best_data st)"
    by (simp add: optimize_scaling_with_def)
  with s show "\<exists>st stopped.
         optimize_scaling_search_with np original_data target_mean target_cv_error
           min_scale max_scale step = Inr (st, stopped) \<and>
         optimize_scaling_with np original_data target_mean target_cv_error
           min_scale max_scale step False = Inr (best_scale st, best_data st)"
    by blast
next
  assume d: "\<forall>x y. lib_value np y = Fin 0 \<longrightarrow>
        lib_value np (lib_div np x y) = PInf \<or> lib_value np (lib_div np x y) = NInf \<or>
        lib_value np (lib_div np x y) = NaN"
    and "lib_value np (lib_mean np original_data) = Fin 0"
  then show "lib_value np (calculate_cv_with np original_data) = PInf \<or>
       lib_value np (calculate_cv_with np original_data) = NInf \<or>
       lib_value np (calculate_cv_with np original_data) = NaN"
    unfolding calculate_cv_with_def by blast
next
  fix m
  assume d: "\<forall>x y. lib_value np y = Fin 0 \<longrightarrow>
        lib_value np (lib_div np x y) = PInf \<or> lib_value np (lib_div np x y) = NInf \<or>
        lib_value np (lib_div np x y) = NaN"
    and "lib_value np (calculate_cv_with np original_data) = Fin 0"
  then show "candidate_error_with np original_data (calculate_cv_with np original_data)
               (base_scale_with np original_data target_mean) m = PInf \<or>
            candidate_error_with np original_data (calculate_cv_with np original_data)
               (base_scale_with np original_data target_mean) m = NInf \<or>
            candidate_error_with np original_data (calculate_cv_with np original_data)
               (base_scale_with np original_data target_mean) m = NaN"
    unfolding candidate_error_with_def cv_error_with_def Let_def by blast
qed

text \<open>
  The series \<open>[-1, 1]\<close> of mean 0.
\<close>

theorem zero_mean_not_signalled_witness:
  "lib_arange (exact_numpy cast_x86_64) 1 2 (1 / 2) = Inr [Fin 1, Fin (3 / 2)] \<and>
   lib_value (exact_numpy cast_x86_64) (lib_mean (exact_numpy cast_x86_64) [- 1, 1]) = Fin 0 \<and>
   (lib_value (exact_numpy cast_x86_64) (calculate_cv_with (exact_numpy cast_x86_64) [- 1, 1]) =
      PInf \<or>
    lib_value (exact_numpy cast_x86_64) (calculate_cv_with (exact_numpy cast_x86_64) [- 1, 1]) =
      NInf \<or>
    lib_value (exact_numpy cast_x86_64) (calculate_cv_with (exact_numpy cast_x86_64) [- 1, 1]) =
      NaN) \<and>
   (\<exists>st stopped.
      optimize_scaling_search_with (exact_numpy cast_x86_64) [- 1, 1] 6 (1 / 100) 1 2 (1 / 2) =
        Inr (st, stopped) \<and>
      optimize_scaling_with (exact_numpy cast_x86_64) [- 1, 1] 6 (1 / 100) 1 2 (1 / 2) False =
        Inr (best_scale st, best_data st))"
proof -
  let ?np = "exact_numpy cast_x86_64"
  have ar: "lib_arange ?np 1 2 (1 / 2) = Inr [Fin 1, Fin (3 / 2)]"
    by (simp add: arange_def Let_def upt_rec)
  have m: "lib_value ?np (lib_mean ?np [- 1, 1]) = Fin 0" by (simp add: np_mean_def)
  have "fdiv x (Fin 0) = PInf \<or> fdiv x (Fin 0) = NInf \<or> fdiv x (Fin 0) = NaN" for x
    by (cases x) auto
  then have dz: "\<forall>x y. lib_value ?np y = Fin 0 \<longrightarrow>
        lib_value ?np (lib_div ?np x y) = PInf \<or> lib_value ?np (lib_div ?np x y) = NInf \<or>
        lib_value ?np (lib_div ?np x y) = NaN"
    by simp
  note t = zero_mean_not_signalled [of ?np 1 2 "1 / 2" "[- 1, 1]" 6 "1 / 100" False]
  from t have "\<forall>ms. lib_arange ?np 1 2 (1 / 2) = Inr ms \<longrightarrow>
      (\<exists>st stopped.
         optimize_scaling_search_with ?np [- 1, 1] 6 (1 / 100) 1 2 (1 / 2) = Inr (st, stopped) \<and>
         optimize_scaling_with ?np [- 1, 1] 6 (1 / 100) 1 2 (1 / 2) False =
           Inr (best_scale st, best_data st))"
    by blast
  with ar have run: "\<exists>st stopped.
         optimize_scaling_search_with ?np [- 1, 1] 6 (1 / 100) 1 2 (1 / 2) = Inr (st, stopped) \<and>
         optimize_scaling_with ?np [- 1, 1] 6 (1 / 100) 1 2 (1 / 2) False =
           Inr (best_scale st, best_data st)"
    by blast
  from t dz m have cv: "lib_value ?np (calculate_cv_with ?np [- 1, 1]) = PInf \<or>
      lib_value ?np (calculate_cv_with ?np [- 1, 1]) = NInf \<or>
      lib_value ?np (calculate_cv_with ?np [- 1, 1]) = NaN"
    by blast
  from ar m cv run show ?thesis by (intro conjI)
qed



text \<open>
  C6, as stated, fails for the \<open>float64\<close> product of line 59. With the base scale
  \<open>1 + 2^-52\<close> and the multipliers \<open>2 - 2^-51 < 2 - 2^-52\<close>, all three \<open>float64\<close> values,
  both products round to 2: the scale factors are equal.
\<close>

theorem scale_factor_strictly_increasing_counterexample:
  "(0::real) < 1 + 1 / 2 ^ 52 \<and> (2 - 1 / 2 ^ 51 :: real) < 2 - 1 / 2 ^ 52 \<and>
   lib_value (binary64_numpy cast_x86_64)
     (scale_factor_with (binary64_numpy cast_x86_64) (Fin (1 + 1 / 2 ^ 52))
        (Fin (2 - 1 / 2 ^ 51))) = Fin 2 \<and>
   lib_value (binary64_numpy cast_x86_64)
     (scale_factor_with (binary64_numpy cast_x86_64) (Fin (1 + 1 / 2 ^ 52))
        (Fin (2 - 1 / 2 ^ 52))) = Fin 2 \<and>
   \<not> fless
     (lib_value (binary64_numpy cast_x86_64)
        (scale_factor_with (binary64_numpy cast_x86_64) (Fin (1 + 1 / 2 ^ 52))
           (Fin (2 - 1 / 2 ^ 51))))
     (lib_value (binary64_numpy cast_x86_64)
        (scale_factor_with (binary64_numpy cast_x86_64) (Fin (1 + 1 / 2 ^ 52))
           (Fin (2 - 1 / 2 ^ 52))))"
proof -
  let ?np = "binary64_numpy cast_x86_64"
  have a: "lib_value ?np (scale_factor_with ?np (Fin (1 + 1 / 2 ^ 52)) (Fin (2 - 1 / 2 ^ 51))) =
      Fin 2"
    by (simp only: scale_factor_with_def binary64_numpy_fields fmul64.simps
        binary64_example_below)
  have b: "lib_value ?np (scale_factor_with ?np (Fin (1 + 1 / 2 ^ 52)) (Fin (2 - 1 / 2 ^ 52))) =
      Fin 2"
    by (simp only: scale_factor_with_def binary64_numpy_fields fmul64.simps
        binary64_example_above)
  have c: "(0::real) < 1 + 1 / 2 ^ 52" and d: "(2 - 1 / 2 ^ 51 :: real) < 2 - 1 / 2 ^ 52"
    by simp_all
  have "\<not> fless (Fin 2) (Fin 2)" by simp
  with a b c d show ?thesis by (simp only:) simp
qed

text \<open>
  C6, amended. For a fixed positive finite base scale and the \<open>float64\<close> product, the scale
  factor never decreases when the multiplier increases: for multipliers \<open>m1 < m2\<close>,
  \<open>factor(m1) \<le> factor(m2)\<close>.
\<close>

theorem scale_factor_monotone:
  assumes "\<forall>x y. lib_value np (lib_mul np x y) = fmul64 (lib_value np x) (lib_value np y)"
    and "lib_value np base_scale = Fin b" and "0 < b"
    and "lib_value np m1 = Fin r1" and "lib_value np m2 = Fin r2" and "r1 < r2"
  shows "fle (lib_value np (scale_factor_with np base_scale m1))
             (lib_value np (scale_factor_with np base_scale m2))"
proof -
  from assms(3,6) have "b * r1 \<le> b * r2" by simp
  then have "fle (binary64 (b * r1)) (binary64 (b * r2))" by (rule binary64_mono)
  with assms(1,2,4,5) show ?thesis by (simp add: scale_factor_with_def)
qed

text \<open>
  The base scale 3 at the multipliers 1 and 3/2.
\<close>

theorem scale_factor_monotone_witness:
  "(\<forall>x y. lib_value (binary64_numpy cast_x86_64) (lib_mul (binary64_numpy cast_x86_64) x y) =
           fmul64 (lib_value (binary64_numpy cast_x86_64) x)
                  (lib_value (binary64_numpy cast_x86_64) y)) \<and>
   lib_value (binary64_numpy cast_x86_64) (Fin 3) = Fin 3 \<and> (0::real) < 3 \<and>
   lib_value (binary64_numpy cast_x86_64) (Fin 1) = Fin 1 \<and>
   lib_value (binary64_numpy cast_x86_64) (Fin (3 / 2)) = Fin (3 / 2) \<and> (1::real) < 3 / 2 \<and>
   fle (lib_value (binary64_numpy cast_x86_64)
          (scale_factor_with (binary64_numpy cast_x86_64) (Fin 3) (Fin 1)))
       (lib_value (binary64_numpy cast_x86_64)
          (scale_factor_with (binary64_numpy cast_x86_64) (Fin 3) (Fin (3 / 2))))"
proof -
  let ?np = "binary64_numpy cast_x86_64"
  have h1: "\<forall>x y. lib_value ?np (lib_mul ?np x y) = fmul64 (lib_value ?np x) (lib_value ?np y)"
    by (simp add: binary64_numpy_fields)
  have h2: "lib_value ?np (Fin 3) = Fin 3" and h4: "lib_value ?np (Fin 1) = Fin 1"
    and h5: "lib_value ?np (Fin (3 / 2)) = Fin (3 / 2)"
    by (simp_all add: binary64_numpy_fields)
  have h3: "(0::real) < 3" and h6: "(1::real) < 3 / 2" by simp_all
  from scale_factor_monotone [OF h1 h2 h3 h4 h5 h6] h1 h2 h3 h4 h5 h6
  show ?thesis by (intro conjI)
qed

text \<open>
  C7, as stated, fails. With the series \<open>[1, 3]\<close>, the target mean \<open>2^64\<close> and the single
  multiplier 1 (\<open>float64\<close> arithmetic is exact here), the scaled series is
  \<open>[2^63, 3 * 2^63]\<close>; neither element is an \<open>int64\<close>, and on x86-64 the cast gives
  \<open>-2^63\<close> for both. The candidate is recorded and returned: its integer series is not the
  scaled series rounded to nearest integers.
\<close>

theorem quantizer_length_order_nearest_counterexample:
  "optimize_scaling_with (int64_numpy cast_x86_64) [1, 3] (2 ^ 64) (1 / 100) 1 2 1 False =
     Inr (Fin (2 ^ 63), Some [- (2 ^ 63), - (2 ^ 63)]) \<and>
   scaled_data_with (int64_numpy cast_x86_64) [1, 3] (Fin (2 ^ 63)) =
     [Fin (2 ^ 63), Fin (3 * 2 ^ 63)] \<and>
   rounded_data_with (int64_numpy cast_x86_64) [1, 3] (Fin (2 ^ 63)) =
     [- (2 ^ 63), - (2 ^ 63)] \<and>
   1 / 2 < \<bar>real_of_int (rounded_data_with (int64_numpy cast_x86_64) [1, 3] (Fin (2 ^ 63)) ! 0)
            - 2 ^ 63\<bar>"
proof -
  let ?np = "int64_numpy cast_x86_64"
  have f [simp]: "lib_value ?np x = x" "lib_mean ?np = np_mean" "lib_std ?np = np_std"
    "lib_mean_int ?np zs = np_mean (map real_of_int zs)"
    "lib_std_int ?np zs = np_std (map real_of_int zs)"
    "lib_rdiv ?np a y = fdiv (Fin a) y" "lib_div ?np = fdiv" "lib_mul ?np = fmul"
    "lib_mul_elem ?np a y = fmul (Fin a) y" "lib_sub ?np = fsub" "lib_abs ?np = fabs"
    "lib_quantize ?np y = astype_int64 cast_x86_64 (np_round y)"
    "lib_arange ?np start stop step = map_sum (\<lambda>e. e) (map Fin) (arange start stop step)"
    for x zs a y start stop step
    by (simp_all add: int64_numpy_def exact_numpy_def)
  have ar: "lib_arange ?np 1 2 1 = Inr [Fin 1]"
    by (simp add: arange_def Let_def)
  have sd: "scaled_data_with ?np [1, 3] (Fin (2 ^ 63)) = [Fin (2 ^ 63), Fin (3 * 2 ^ 63)]"
    by (simp add: scaled_data_with_def)
  have rd: "rounded_data_with ?np [1, 3] (Fin (2 ^ 63)) = [- (2 ^ 63), - (2 ^ 63)]"
    by (simp only: rounded_data_with_def sd list.map f)
       (simp add: round_half_even_def Let_def astype_int64_def trunc_int_def cast_x86_64_def)
  have bs: "base_scale_with ?np [1, 3] (2 ^ 64) = Fin (2 ^ 63)"
    by (simp add: base_scale_with_def np_mean_def)
  have cv: "calculate_cv_with ?np [1, 3] = Fin (1 / 2)"
    by (simp add: calculate_cv_with_def np_mean_def np_std_def)
  have sf: "scale_factor_with ?np (Fin (2 ^ 63)) (Fin 1) = Fin (2 ^ 63)"
    by (simp add: scale_factor_with_def)
  have err: "cv_error_with ?np (Fin (1 / 2)) [- (2 ^ 63), - (2 ^ 63)] = Fin 1"
    by (simp add: cv_error_with_def calculate_cv_int_with_def np_mean_def np_std_def)
  have E: "candidate_error_with ?np [1, 3] (Fin (1 / 2)) (Fin (2 ^ 63)) (Fin 1) = Fin 1"
    by (simp only: candidate_error_with_def sf rd err f)
  have acc: "accepted_with ?np [1, 3] (Fin (1 / 2)) (Fin (2 ^ 63)) (Fin 1) n =
      \<lparr>best_error = Fin 1, best_scale = Fin (2 ^ 63),
       best_data = Some [- (2 ^ 63), - (2 ^ 63)], scales_tried = n\<rparr>" for n
    by (simp only: accepted_with_def E sf rd f)
  have "optimize_scaling_search_with ?np [1, 3] (2 ^ 64) (1 / 100) 1 2 1 =
      Inr (\<lparr>best_error = Fin 1, best_scale = Fin (2 ^ 63),
            best_data = Some [- (2 ^ 63), - (2 ^ 63)], scales_tried = 1\<rparr>, False)"
    by (simp only: search_with_Inr [OF ar] bs cv scan_Cons_with E acc)
       (simp add: initial_state_def)
  then have call: "optimize_scaling_with ?np [1, 3] (2 ^ 64) (1 / 100) 1 2 1 False =
     Inr (Fin (2 ^ 63), Some [- (2 ^ 63), - (2 ^ 63)])"
    by (simp add: optimize_scaling_with_def)
  have far: "1 / 2 < \<bar>real_of_int (rounded_data_with ?np [1, 3] (Fin (2 ^ 63)) ! 0) - 2 ^ 63\<bar>"
    by (simp only: rd) simp
  from call sd rd far show ?thesis by (intro conjI)
qed

text \<open>
  C7, amended. Whatever the arithmetic, when the quantizer is \<open>np.round\<close> followed by the
  cast to \<open>int64\<close>: the integer series has the length of the original series, its element at
  each position is the quantization of the scaled element at that position alone, and
  where the scaled element is finite and its rounding is an \<open>int64\<close>, that element is the
  round-half-even of the scaled element, an integer nearest to it.
\<close>

theorem quantizer_length_order_nearest:
  assumes "\<forall>y. lib_quantize np y = astype_int64 cnf (np_round (lib_value np y))"
  shows "length (rounded_data_with np original_data sf) = length original_data \<and>
    (\<forall>i<length original_data.
       rounded_data_with np original_data sf ! i =
         lib_quantize np (scaled_data_with np original_data sf ! i) \<and>
       (\<forall>r. lib_value np (scaled_data_with np original_data sf ! i) = Fin r \<and>
            - (2 ^ 63) \<le> round_half_even r \<and> round_half_even r < 2 ^ 63 \<longrightarrow>
            rounded_data_with np original_data sf ! i = round_half_even r \<and>
            (\<forall>k. \<bar>real_of_int (rounded_data_with np original_data sf ! i) - r\<bar>
                   \<le> \<bar>real_of_int k - r\<bar>)))"
proof (intro conjI allI impI)
  show "length (rounded_data_with np original_data sf) = length original_data"
    by (rule rounded_data_with_length)
next
  fix i assume i: "i < length original_data"
  then show q: "rounded_data_with np original_data sf ! i =
      lib_quantize np (scaled_data_with np original_data sf ! i)"
    by (simp add: rounded_data_with_def scaled_data_with_def)
  fix r
  assume h: "lib_value np (scaled_data_with np original_data sf ! i) = Fin r \<and>
      - (2 ^ 63) \<le> round_half_even r \<and> round_half_even r < 2 ^ 63"
  with q assms have "rounded_data_with np original_data sf ! i =
      astype_int64 cnf (Fin (real_of_int (round_half_even r)))"
    by simp
  with h show e: "rounded_data_with np original_data sf ! i = round_half_even r"
    by (simp add: astype_int64_in_range)
  fix k
  show "\<bar>real_of_int (rounded_data_with np original_data sf ! i) - r\<bar> \<le> \<bar>real_of_int k - r\<bar>"
    unfolding e by (rule round_half_even_nearest)
qed

text \<open>
  The series \<open>[1, 3]\<close> scaled by 3/4: 9/4 is rounded to 2.
\<close>

theorem quantizer_length_order_nearest_witness:
  "(\<forall>y. lib_quantize (int64_numpy cast_x86_64) y =
         astype_int64 cast_x86_64 (np_round (lib_value (int64_numpy cast_x86_64) y))) \<and>
   scaled_data_with (int64_numpy cast_x86_64) [1, 3] (Fin (3 / 4)) = [Fin (3 / 4), Fin (9 / 4)] \<and>
   length (rounded_data_with (int64_numpy cast_x86_64) [1, 3] (Fin (3 / 4))) = 2 \<and>
   rounded_data_with (int64_numpy cast_x86_64) [1, 3] (Fin (3 / 4)) ! 1 = 2"
proof -
  let ?np = "int64_numpy cast_x86_64"
  have h: "\<forall>y. lib_quantize ?np y = astype_int64 cast_x86_64 (np_round (lib_value ?np y))"
    by (simp add: int64_numpy_quantize)
  have sd: "scaled_data_with ?np [1, 3] (Fin (3 / 4)) = [Fin (3 / 4), Fin (9 / 4)]"
    by (simp add: scaled_data_with_def int64_numpy_def exact_numpy_def)
  have r: "round_half_even (9 / 4) = 2"
    by (simp add: round_half_even_def Let_def)
  note t = quantizer_length_order_nearest [OF h, of "[1, 3]" "Fin (3 / 4)"]
  from t have len: "length (rounded_data_with ?np [1, 3] (Fin (3 / 4))) = length [1, 3 :: real]"
    by (rule conjunct1)
  from t have "\<forall>i<length [1, 3 :: real].
       (\<forall>r. lib_value ?np (scaled_data_with ?np [1, 3] (Fin (3 / 4)) ! i) = Fin r \<and>
            - (2 ^ 63) \<le> round_half_even r \<and> round_half_even r < 2 ^ 63 \<longrightarrow>
            rounded_data_with ?np [1, 3] (Fin (3 / 4)) ! i = round_half_even r)"
    by blast
  then have "\<forall>r. lib_value ?np (scaled_data_with ?np [1, 3] (Fin (3 / 4)) ! 1) = Fin r \<and>
            - (2 ^ 63) \<le> round_half_even r \<and> round_half_even r < 2 ^ 63 \<longrightarrow>
            rounded_data_with ?np [1, 3] (Fin (3 / 4)) ! 1 = round_half_even r"
    by (elim allE [of _ 1]) simp
  then have "lib_value ?np (scaled_data_with ?np [1, 3] (Fin (3 / 4)) ! 1) = Fin (9 / 4) \<and>
            - (2 ^ 63) \<le> round_half_even (9 / 4) \<and> round_half_even (9 / 4) < 2 ^ 63 \<longrightarrow>
            rounded_data_with ?np [1, 3] (Fin (3 / 4)) ! 1 = round_half_even (9 / 4)"
    by (rule spec)
  moreover have "lib_value ?np (scaled_data_with ?np [1, 3] (Fin (3 / 4)) ! 1) = Fin (9 / 4)"
    by (simp add: sd) (simp add: int64_numpy_def exact_numpy_def)
  ultimately have "rounded_data_with ?np [1, 3] (Fin (3 / 4)) ! 1 = 2"
    by (simp add: r)
  with h sd len show ?thesis by simp
qed

text \<open>
  C8. An element of the scaled series whose fractional part is exactly 1/2 is quantized to
  the even one of its two nearest integers; 0.5, 1.5 and 2.5 go to 0, 2 and 2.
\<close>

theorem quantizer_half_to_even:
  "(\<forall>i<length original_data.
      frac (original_data ! i * s) = 1 / 2 \<longrightarrow>
      even (rounded_data cnf original_data (Fin s) ! i) \<and>
      \<bar>real_of_int (rounded_data cnf original_data (Fin s) ! i) - original_data ! i * s\<bar> = 1 / 2) \<and>
   rounded_data cnf [1 / 2, 3 / 2, 5 / 2] (Fin 1) = [0, 2, 2]"
proof -
  have "rounded_data cnf [1 / 2, 3 / 2, 5 / 2] (Fin 1) = [0, 2, 2]"
    by (simp add: rounded_data_def scaled_data_def round_half_even_def trunc_int_def Let_def)
  then show ?thesis
    by (simp add: rounded_data_finite_nth round_half_even_tie)
qed

text \<open>The series \<open>[1, 3]\<close> scaled by 1/2: the element 3/2 goes to 2.\<close>

theorem quantizer_half_to_even_witness:
  "frac ([1, 3] ! 1 * (1 / 2) :: real) = 1 / 2 \<and>
   even (rounded_data cast_x86_64 [1, 3] (Fin (1 / 2)) ! 1) \<and>
   \<bar>real_of_int (rounded_data cast_x86_64 [1, 3] (Fin (1 / 2)) ! 1) - [1, 3] ! 1 * (1 / 2)\<bar> = 1 / 2"
proof -
  have h: "frac ([1, 3] ! 1 * (1 / 2) :: real) = 1 / 2" by (simp add: frac_def)
  have i: "1 < length [1, 3 :: real]" by simp
  from quantizer_half_to_even [of "[1, 3]" "1 / 2" cast_x86_64] i h
  have "even (rounded_data cast_x86_64 [1, 3] (Fin (1 / 2)) ! 1) \<and>
   \<bar>real_of_int (rounded_data cast_x86_64 [1, 3] (Fin (1 / 2)) ! 1) - [1, 3] ! 1 * (1 / 2)\<bar> = 1 / 2"
    by blast
  with h show ?thesis by (rule conjI)
qed



text \<open>
  C10. With \<open>min_scale = 2\<close>, \<open>max_scale = 1\<close> and \<open>step = 1\<close> the progression is empty, no
  candidate is examined and the loop variables keep their initial values. With \<open>verbose\<close>
  off the call returns the base scale and \<open>None\<close>; with \<open>verbose\<close> on (the default) the
  summary after the loop raises \<open>TypeError\<close> on \<open>np.mean(None)\<close>, so the call does not
  return.
\<close>

theorem empty_progression_verbose_raises:
  "arange 2 1 1 = Inr [] \<and>
   optimize_scaling_search cast_x86_64 [1, 3] 6 (1 / 100) 2 1 1 =
     Inr (\<lparr>best_error = PInf, best_scale = Fin 3, best_data = None, scales_tried = 0\<rparr>, False) \<and>
   optimize_scaling cast_x86_64 [1, 3] 6 (1 / 100) 2 1 1 True = Inl TypeError \<and>
   optimize_scaling cast_x86_64 [1, 3] 6 (1 / 100) 2 1 1 False = Inr (Fin 3, None)"
proof -
  have ar: "arange 2 1 1 = Inr []" by (simp add: arange_def)
  have bs: "base_scale_of [1, 3] 6 = Fin 3" by (simp add: eval_defs)
  have s: "optimize_scaling_search cast_x86_64 [1, 3] 6 (1 / 100) 2 1 1 =
     Inr (\<lparr>best_error = PInf, best_scale = Fin 3, best_data = None, scales_tried = 0\<rparr>, False)"
    by (simp add: search_Inr [OF ar] initial_state_def bs)
  from ar s show ?thesis by (simp add: optimize_scaling_def)
qed

end
